theory Spec2Isabelle
  imports Main "HOL-Library.Sublist" "HOL-Library.Char_ord" "HOL-Library.List_Lexorder"
begin

section \<open>Python values, text and exceptions\<close>

text \<open>
  The package \<^verbatim>\<open>agentic_codegen\<close> is Python. Its \<^verbatim>\<open>str\<close> values are modelled as
  \<^typ>\<open>string\<close>, one \<^typ>\<open>char\<close> per code point below 256. An exception instance is kept as the
  pair the code itself reads from it: \<^verbatim>\<open>type(e).__name__\<close> and \<^verbatim>\<open>str(e)\<close>. Only instances
  of \<^verbatim>\<open>Exception\<close> are modelled (what \<^verbatim>\<open>except Exception\<close> catches).
\<close>

datatype exn = Exn (exn_type: string) (exn_msg: string)

datatype pyfloat = Finite int int | Infinite bool | NaN

datatype pyval =
    PyNone
  | PyBool bool
  | PyInt int
  | PyFloat pyfloat
  | PyStr string
  | PyList "pyval list"
  | PyDict "(string \<times> pyval) list"

text \<open>A \<^verbatim>\<open>Dict[str, Any]\<close>: an association list whose keys are unique, read with \<^verbatim>\<open>d.get(k, default)\<close>.\<close>

type_synonym pydict = "(string \<times> pyval) list"

definition dict_get :: "pydict \<Rightarrow> string \<Rightarrow> pyval \<Rightarrow> pyval" where
  "dict_get d k dflt = (case map_of d k of Some v \<Rightarrow> v | None \<Rightarrow> dflt)"

text \<open>
  \<^verbatim>\<open>str.isspace\<close> on one character, which is also what \<^verbatim>\<open>\s\<close> matches in a \<^verbatim>\<open>str\<close> pattern:
  below 256 these are TAB..CR, FS..US, space, NEL and NBSP.
\<close>

definition isspace :: "char \<Rightarrow> bool" where
  "isspace c = (let n = (of_char c :: nat) in
     (9 \<le> n \<and> n \<le> 13) \<or> (28 \<le> n \<and> n \<le> 32) \<or> n = 133 \<or> n = 160)"

definition lstrip :: "string \<Rightarrow> string" where
  "lstrip s = dropWhile isspace s"

definition rstrip :: "string \<Rightarrow> string" where
  "rstrip s = rev (dropWhile isspace (rev s))"

definition strip :: "string \<Rightarrow> string" where
  "strip s = rstrip (lstrip s)"

text \<open>
  The slice \<^verbatim>\<open>s[:k]\<close>: the first \<open>k\<close> items, and for a negative \<open>k\<close> all but the last
  \<open>-k\<close> items.
\<close>

definition slice_to :: "int \<Rightarrow> 'a list \<Rightarrow> 'a list" where
  "slice_to k s = (if 0 \<le> k then take (nat k) s else take (nat (int (length s) + k)) s)"

text \<open>\<^verbatim>\<open>sep.join(xs)\<close>.\<close>

fun join :: "string \<Rightarrow> string list \<Rightarrow> string" where
  "join sep [] = []"
| "join sep [x] = x"
| "join sep (x # y # ys) = x @ sep @ join sep (y # ys)"

text \<open>\<^verbatim>\<open>str(n)\<close> for an \<^verbatim>\<open>int\<close>: decimal digits, with a minus sign below zero.\<close>

definition digit_char :: "nat \<Rightarrow> char" where
  "digit_char d = char_of (48 + d)"

fun str_nat :: "nat \<Rightarrow> string" where
  "str_nat n = (if n < 10 then [digit_char n] else str_nat (n div 10) @ [digit_char (n mod 10)])"

declare str_nat.simps [simp del]

definition str_int :: "int \<Rightarrow> string" where
  "str_int i = (if i < 0 then CHR ''-'' # str_nat (nat (- i)) else str_nat (nat i))"

text \<open>
  The library functions the package calls on values of unknown shape are parameters of the
  model: \<^verbatim>\<open>json.loads\<close> (a value, or the exception it raises: \<^verbatim>\<open>JSONDecodeError\<close> on a text
  that is not JSON, but also \<^verbatim>\<open>RecursionError\<close> on a deeply nested document and
  \<^verbatim>\<open>ValueError\<close> on an integer of too many digits), \<^verbatim>\<open>repr\<close> of floats and containers, and
  \<^verbatim>\<open>int(...)\<close>.
\<close>

record py_builtins =
  json_loads :: "string \<Rightarrow> exn + pyval"
  py_repr :: "pyval \<Rightarrow> string"
  py_int :: "pyval \<Rightarrow> exn + int"

text \<open>\<^verbatim>\<open>str(v)\<close>: a \<^verbatim>\<open>str\<close> is itself, the atoms have fixed spellings.\<close>

definition py_str :: "py_builtins \<Rightarrow> pyval \<Rightarrow> string" where
  "py_str B v = (case v of
      PyStr s \<Rightarrow> s
    | PyNone \<Rightarrow> ''None''
    | PyBool b \<Rightarrow> (if b then ''True'' else ''False'')
    | PyInt n \<Rightarrow> str_int n
    | _ \<Rightarrow> py_repr B v)"

text \<open>\<^verbatim>\<open>bool(v)\<close>, Python's truth value.\<close>

definition truthy :: "pyval \<Rightarrow> bool" where
  "truthy v = (case v of
      PyNone \<Rightarrow> False
    | PyBool b \<Rightarrow> b
    | PyInt n \<Rightarrow> n \<noteq> 0
    | PyFloat f \<Rightarrow> (case f of Finite m e \<Rightarrow> m \<noteq> 0 | _ \<Rightarrow> True)
    | PyStr s \<Rightarrow> s \<noteq> []
    | PyList xs \<Rightarrow> xs \<noteq> []
    | PyDict d \<Rightarrow> d \<noteq> [])"

section \<open>parsing.py\<close>

text \<open>
  \<^verbatim>\<open>ACTION_FENCE_RE = re.compile(r"```action\s*(?P<body>[\s\S]*?)\s*```", flags=re.IGNORECASE)\<close>

  The pattern is matched the way \<^verbatim>\<open>search\<close> does: at the leftmost position where it can
  match, the literal opening case-insensitively, the first \<^verbatim>\<open>\s*\<close> greedy, the body lazy
  (the shortest body after which optional white space and a closing fence follow). The
  matcher's backtracking into the first \<^verbatim>\<open>\s*\<close> is left out: the body may hold any
  character, so whenever a shorter run of white space leads to a match the longest one does
  too, and the longest is tried first. Below 256 the only characters that match a letter of
  the opening under \<^verbatim>\<open>IGNORECASE\<close> are its two ASCII cases.
\<close>

definition ascii_lower :: "char \<Rightarrow> char" where
  "ascii_lower c = (let n = (of_char c :: nat) in if 65 \<le> n \<and> n \<le> 90 then char_of (n + 32) else c)"

fun match_literal_ci :: "string \<Rightarrow> string \<Rightarrow> string option" where
  "match_literal_ci [] s = Some s"
| "match_literal_ci (p # ps) [] = None"
| "match_literal_ci (p # ps) (c # cs) =
     (if ascii_lower c = ascii_lower p then match_literal_ci ps cs else None)"

fun lazy_body :: "string \<Rightarrow> string option" where
  "lazy_body [] = None"
| "lazy_body (c # cs) =
     (if prefix ''```'' (dropWhile isspace (c # cs)) then Some []
      else map_option ((#) c) (lazy_body cs))"

definition match_fence_at :: "string \<Rightarrow> string option" where
  "match_fence_at s = (case match_literal_ci ''```action'' s of
      None \<Rightarrow> None
    | Some r \<Rightarrow> lazy_body (dropWhile isspace r))"

fun ACTION_FENCE_search :: "string \<Rightarrow> string option" where
  "ACTION_FENCE_search [] = None"
| "ACTION_FENCE_search (c # cs) = (case match_fence_at (c # cs) of
      Some body \<Rightarrow> Some body
    | None \<Rightarrow> ACTION_FENCE_search cs)"

definition ActionParseError :: "string \<Rightarrow> exn" where
  "ActionParseError msg = Exn ''ActionParseError'' msg"

record Action =
  tool_name :: string
  args :: pydict

definition extract_action_block :: "string \<Rightarrow> exn + string" where
  "extract_action_block text =
     (if strip text = [] then
        Inl (ActionParseError ''Empty model response; expected an ```action``` block.'')
      else case ACTION_FENCE_search text of
        None \<Rightarrow> Inl (ActionParseError ''No ```action``` block found in model response.'')
      | Some body \<Rightarrow>
          if body = [] \<or> strip body = [] then
            Inl (ActionParseError ''Found ```action``` block but it was empty.'')
          else Inr (strip body))"

text \<open>
  \<^verbatim>\<open>parse_action_json\<close> catches \<^verbatim>\<open>json.JSONDecodeError\<close> only; whatever else
  \<^verbatim>\<open>json.loads\<close> raises passes through unchanged.
\<close>

definition parse_action_json :: "py_builtins \<Rightarrow> string \<Rightarrow> exn + pydict" where
  "parse_action_json B block_body = (case json_loads B block_body of
      Inl e \<Rightarrow>
        if exn_type e = ''JSONDecodeError'' then
          Inl (ActionParseError (''Invalid JSON inside action block: '' @ exn_msg e))
        else Inl e
    | Inr obj \<Rightarrow> (case obj of
          PyDict d \<Rightarrow> Inr d
        | _ \<Rightarrow> Inl (ActionParseError ''Action JSON must be a JSON object (dict).'')))"

definition validate_action_obj :: "pydict \<Rightarrow> exn + Action" where
  "validate_action_obj obj = (case dict_get obj ''tool_name'' PyNone of
      PyStr tn \<Rightarrow>
        if strip tn = [] then
          Inl (ActionParseError ''Action JSON missing valid 'tool_name' (string).'')
        else (case (case dict_get obj ''args'' PyNone of PyNone \<Rightarrow> PyDict [] | a \<Rightarrow> a) of
            PyDict a \<Rightarrow> Inr \<lparr>tool_name = strip tn, args = a\<rparr>
          | _ \<Rightarrow> Inl (ActionParseError ''Action JSON 'args' must be an object/dict.''))
    | _ \<Rightarrow> Inl (ActionParseError ''Action JSON missing valid 'tool_name' (string).''))"

definition parse_action :: "py_builtins \<Rightarrow> string \<Rightarrow> exn + Action" where
  "parse_action B text = (case extract_action_block text of
      Inl e \<Rightarrow> Inl e
    | Inr body \<Rightarrow> (case parse_action_json B body of
          Inl e \<Rightarrow> Inl e
        | Inr obj \<Rightarrow> validate_action_obj obj))"

text \<open>
  \<^verbatim>\<open>safe_parse_action\<close> catches \<^verbatim>\<open>ActionParseError\<close> and nothing else; any other exception
  leaves it, which is the left summand here.
\<close>

definition safe_parse_action :: "py_builtins \<Rightarrow> string \<Rightarrow> exn + (Action option \<times> string option)" where
  "safe_parse_action B text = (case parse_action B text of
      Inr a \<Rightarrow> Inr (Some a, None)
    | Inl e \<Rightarrow> if exn_type e = ''ActionParseError'' then Inr (None, Some (exn_msg e)) else Inl e)"

section \<open>prompts.py\<close>

datatype Phase = IMPLEMENT | DOCS | TESTS | EVALUATE | EXPORT | FIX

text \<open>\<^verbatim>\<open>Phase\<close> is a \<^verbatim>\<open>str\<close> enumeration; this is \<^verbatim>\<open>phase.value\<close>.\<close>

fun phase_value :: "Phase \<Rightarrow> string" where
  "phase_value IMPLEMENT = ''implement''"
| "phase_value DOCS = ''docs''"
| "phase_value TESTS = ''tests''"
| "phase_value EVALUATE = ''evaluate''"
| "phase_value EXPORT = ''export''"
| "phase_value FIX = ''fix''"

definition AGENT_RULES :: string where
  \<open>AGENT_RULES =
     ''You are an agentic code generation assistant.\<newline>'' @
     ''\<newline>'' @
     ''NON-NEGOTIABLE OUTPUT RULES:\<newline>'' @
     ''1) You MUST output exactly one fenced block of type ```action``` containing valid JSON.\<newline>'' @
     ''2) The JSON object MUST contain:\<newline>'' @
     ''   - "tool_name": string\<newline>'' @
     ''   - "args": object (can be empty)\<newline>'' @
     ''3) Do NOT include additional code blocks besides the single ```action``` block.\<newline>'' @
     ''\<newline>'' @
     ''QUALITY & SAFETY:\<newline>'' @
     ''- Prefer Python standard library only if spec.stdlib_only is true.\<newline>'' @
     ''- Produce deterministic, testable code.\<newline>'' @
     ''- If prior checks failed, prioritize fixing those failures.\<newline>''\<close>

record MemorySnapshot =
  phase :: Phase
  spec :: pydict
  code :: string
  tests :: string
  last_checks :: "string list option"
  iteration :: int
  phase_retries :: int

definition compact_spec :: "py_builtins \<Rightarrow> pydict \<Rightarrow> int \<Rightarrow> string" where
  "compact_spec B sp max_chars =
     (let s = py_str B (PyDict sp) in
      if int (length s) > max_chars then slice_to (max_chars - 3) s @ ''...'' else s)"

definition phase_instruction :: "MemorySnapshot \<Rightarrow> string" where
  \<open>phase_instruction snapshot =
     (if phase snapshot = IMPLEMENT then
        ''Task: Choose the next tool to generate code.\<newline>\<newline>'' @
        ''Return an action:\<newline>- tool_name: "write_code"\<newline>- args: {}\<newline>''
      else if phase snapshot = DOCS then
        ''Task: Choose the next tool to add docstrings.\<newline>\<newline>'' @
        ''Return an action:\<newline>- tool_name: "write_docs"\<newline>- args: {}\<newline>''
      else if phase snapshot = TESTS then
        ''Task: Choose the next tool to generate unittest tests.\<newline>\<newline>'' @
        ''Return an action:\<newline>- tool_name: "write_tests"\<newline>- args: {}\<newline>''
      else if phase snapshot = EVALUATE then
        ''Task: Choose the next tool to run checks.\<newline>\<newline>'' @
        ''Return an action:\<newline>- tool_name: "run_checks"\<newline>- args: {}\<newline>''
      else if phase snapshot = EXPORT then
        ''Task: Choose the next tool to save files.\<newline>\<newline>'' @
        ''Return an action:\<newline>- tool_name: "save_file"\<newline>- args: {}\<newline>''
      else
        ''Task: Choose the next tool to fix failures described in LAST_CHECKS.\<newline>\<newline>'' @
        ''Return an action:\<newline>- tool_name: "write_code"\<newline>- args: {}\<newline>'')\<close>

text \<open>
  The section of \<^verbatim>\<open>build_prompt\<close> guarded by \<^verbatim>\<open>if snapshot.last_checks:\<close>, as the list of
  lines it appends: nothing for \<^verbatim>\<open>None\<close> and for the empty list, else one element made of
  the header and \<^verbatim>\<open>"\n".join(f"- {c}" for c in snapshot.last_checks[:10])\<close>.
\<close>

definition checks_lines :: "MemorySnapshot \<Rightarrow> string list" where
  "checks_lines snapshot = (case last_checks snapshot of
      None \<Rightarrow> []
    | Some cs \<Rightarrow>
        if cs = [] then []
        else [''\<newline>LAST_CHECKS:\<newline>'' @ join ''\<newline>'' (map (\<lambda>c. ''- '' @ c) (take 10 cs))])"

definition prompt_lines :: "py_builtins \<Rightarrow> MemorySnapshot \<Rightarrow> string list" where
  "prompt_lines B snapshot =
     [AGENT_RULES,
      ''\<newline>---\<newline>'',
      ''PHASE: '' @ phase_value (phase snapshot),
      ''ITERATION: '' @ str_int (iteration snapshot),
      ''PHASE_RETRIES: '' @ str_int (phase_retries snapshot),
      ''\<newline>SPEC:\<newline>'' @ compact_spec B (spec snapshot) 4000]
     @ (if strip (code snapshot) \<noteq> [] then [''\<newline>CURRENT_CODE:\<newline>'' @ code snapshot] else [])
     @ (if strip (tests snapshot) \<noteq> [] then [''\<newline>CURRENT_TESTS:\<newline>'' @ tests snapshot] else [])
     @ checks_lines snapshot
     @ [''\<newline>---\<newline>'', phase_instruction snapshot]"

definition build_prompt :: "py_builtins \<Rightarrow> MemorySnapshot \<Rightarrow> string" where
  "build_prompt B snapshot = join ''\<newline>'' (prompt_lines B snapshot)"

section \<open>agent.py\<close>

record AgentConfig =
  max_iterations :: int
  max_phase_retries :: int
  strict :: bool
  out_dir :: string

record AgentResult =
  ok :: bool
  summary :: string
  file_paths :: "(string \<times> string) list option"
  iterations :: int

text \<open>
  The dictionary a tool returns, as far as \<^verbatim>\<open>run\<close> reads it: for each of the six keys it
  looks up, the value when the key is present. \<^verbatim>\<open>self.actions\<close> is typed \<^verbatim>\<open>Any\<close>, so
  nothing makes a tool return the key its contract names, and any of the keys may be
  missing. The values that are present are taken to have the types of the contract: text
  for \<^verbatim>\<open>code\<close> and \<^verbatim>\<open>tests\<close>, a truth value for \<^verbatim>\<open>ok\<close>, a list of texts for \<^verbatim>\<open>checks\<close>, a
  mapping of texts for \<^verbatim>\<open>file_paths\<close>.
\<close>

record tool_result =
  res_code :: "string option"
  res_tests :: "string option"
  res_ok :: "bool option"
  res_checks :: "string list option"
  res_file_paths :: "(string \<times> string) list option"
  res_summary :: "pyval option"

definition empty_result :: tool_result where
  "empty_result = \<lparr>res_code = None, res_tests = None, res_ok = None, res_checks = None,
                    res_file_paths = None, res_summary = None\<rparr>"

text \<open>
  The dictionaries of the contracts: \<^verbatim>\<open>{"code": c}\<close>, \<^verbatim>\<open>{"tests": t}\<close>,
  \<^verbatim>\<open>{"ok": b, "checks": cs}\<close>, \<^verbatim>\<open>{"file_paths": paths}\<close> and \<^verbatim>\<open>{"ok": b, "summary": s}\<close>.
\<close>

definition CodeResult :: "string \<Rightarrow> tool_result" where
  "CodeResult c = empty_result\<lparr>res_code := Some c\<rparr>"

definition TestsResult :: "string \<Rightarrow> tool_result" where
  "TestsResult t = empty_result\<lparr>res_tests := Some t\<rparr>"

definition ChecksResult :: "bool \<Rightarrow> string list \<Rightarrow> tool_result" where
  "ChecksResult b cs = empty_result\<lparr>res_ok := Some b, res_checks := Some cs\<rparr>"

definition FilesResult :: "(string \<times> string) list \<Rightarrow> tool_result" where
  "FilesResult paths = empty_result\<lparr>res_file_paths := Some paths\<rparr>"

definition TerminateResult :: "bool \<Rightarrow> pyval \<Rightarrow> tool_result" where
  "TerminateResult b s = empty_result\<lparr>res_ok := Some b, res_summary := Some s\<rparr>"

text \<open>
  The collaborators of an \<^verbatim>\<open>Agent\<close>: \<^verbatim>\<open>self.llm\<close> and the five methods of \<^verbatim>\<open>self.actions\<close>.
  They are stateful objects outside the package's control, so each is an oracle that is also
  given the number of the loop pass in which it is called (every pass calls \<^verbatim>\<open>generate\<close>
  once and at most one tool); any sequence of replies is some such oracle. A call either
  raises (left) or returns: the generator a text, a tool a dictionary.
\<close>

record collaborators =
  llm_generate :: "int \<Rightarrow> string \<Rightarrow> exn + string"
  tool_write_code :: "int \<Rightarrow> pydict \<Rightarrow> string \<Rightarrow> string list \<Rightarrow> pydict \<Rightarrow> exn + tool_result"
  tool_write_docs :: "int \<Rightarrow> pydict \<Rightarrow> string \<Rightarrow> pydict \<Rightarrow> exn + tool_result"
  tool_write_tests :: "int \<Rightarrow> pydict \<Rightarrow> string \<Rightarrow> pydict \<Rightarrow> exn + tool_result"
  tool_run_checks :: "int \<Rightarrow> pydict \<Rightarrow> string \<Rightarrow> string \<Rightarrow> bool \<Rightarrow> pydict \<Rightarrow> exn + tool_result"
  tool_save_file :: "int \<Rightarrow> pydict \<Rightarrow> string \<Rightarrow> string \<Rightarrow> string \<Rightarrow> pydict \<Rightarrow> exn + tool_result"

text \<open>\<^verbatim>\<open>_dispatch\<close>: the tool's dictionary is passed on as it comes.\<close>

definition dispatch ::
  "AgentConfig \<Rightarrow> collaborators \<Rightarrow> int \<Rightarrow> string \<Rightarrow> pydict \<Rightarrow> pydict \<Rightarrow> string \<Rightarrow> string \<Rightarrow> string list
     \<Rightarrow> exn + tool_result" where
  "dispatch cfg E i tool args' sp code' tests' checks =
     (if tool = ''write_code'' then tool_write_code E i sp code' checks args'
      else if tool = ''write_docs'' then tool_write_docs E i sp code' args'
      else if tool = ''write_tests'' then tool_write_tests E i sp code' args'
      else if tool = ''run_checks'' then tool_run_checks E i sp code' tests' (strict cfg) args'
      else if tool = ''save_file'' then tool_save_file E i sp code' tests' (out_dir cfg) args'
      else if tool = ''terminate'' then
        Inr (TerminateResult True (dict_get args' ''summary'' (PyStr ''Terminated.'')))
      else Inl (Exn ''ValueError'' (''Unknown tool_name: '' @ tool)))"

text \<open>The local variables of \<^verbatim>\<open>Agent.run\<close> that live across loop passes.\<close>

record run_state =
  st_phase :: Phase
  st_iteration :: int
  st_phase_retries :: int
  st_code :: string
  st_tests :: string
  st_last_checks :: "string list"

text \<open>What one pass of the \<^verbatim>\<open>while\<close> loop does: go round again, return, or let an exception out.\<close>

datatype pass_result = Continue run_state | Return AgentResult | Raise exn

definition snapshot_of :: "pydict \<Rightarrow> run_state \<Rightarrow> MemorySnapshot" where
  "snapshot_of sp st =
     \<lparr>phase = st_phase st, spec = sp, code = st_code st, tests = st_tests st,
      last_checks = (if st_last_checks st \<noteq> [] then Some (st_last_checks st) else None),
      iteration = st_iteration st, phase_retries = st_phase_retries st\<rparr>"

text \<open>Lines 69 to 80: \<^verbatim>\<open>action is None\<close>.\<close>

definition parse_failure :: "AgentConfig \<Rightarrow> run_state \<Rightarrow> string option \<Rightarrow> pass_result" where
  "parse_failure cfg st err =
     (let e = (case err of Some m \<Rightarrow> m | None \<Rightarrow> ''None'');
          retries = st_phase_retries st + 1
      in if retries > max_phase_retries cfg then
           Return \<lparr>ok = False,
                   summary = ''Failed to parse action after retries. Last error: '' @ e,
                   file_paths = None, iterations = st_iteration st + 1\<rparr>
         else Continue (st\<lparr>st_last_checks := [''ActionParseError: '' @ e],
                           st_phase_retries := retries,
                           st_iteration := st_iteration st + 1\<rparr>))"

text \<open>Lines 86 to 96: the handler of \<^verbatim>\<open>except Exception as e\<close> around \<^verbatim>\<open>self._dispatch\<close>.\<close>

definition tool_exception :: "AgentConfig \<Rightarrow> run_state \<Rightarrow> string \<Rightarrow> exn \<Rightarrow> pass_result" where
  "tool_exception cfg st tool e =
     (let checks = [''ToolExecutionError in '' @ tool @ '': '' @ exn_type e @ '': '' @ exn_msg e];
          retries = st_phase_retries st + 1
      in if retries > max_phase_retries cfg then
           Return \<lparr>ok = False,
                   summary = ''Tool execution failed after retries.\<newline>'' @ join ''\<newline>'' checks,
                   file_paths = None, iterations = st_iteration st + 1\<rparr>
         else Continue (st\<lparr>st_last_checks := checks,
                           st_phase_retries := retries,
                           st_iteration := st_iteration st + 1\<rparr>))"

text \<open>\<^verbatim>\<open>result[key]\<close> on a dictionary without the key.\<close>

definition KeyError :: "string \<Rightarrow> exn" where
  "KeyError k = Exn ''KeyError'' ([CHR 0x27] @ k @ [CHR 0x27])"

text \<open>
  Lines 98 to 155: the chain on \<^verbatim>\<open>tool_name\<close> after a dispatch that returned. It is outside
  the \<^verbatim>\<open>try\<close>, so the \<^verbatim>\<open>KeyError\<close> of \<^verbatim>\<open>result[key]\<close> leaves \<^verbatim>\<open>run\<close>; \<^verbatim>\<open>result.get\<close> falls
  back on its default.
\<close>

definition apply_result :: "py_builtins \<Rightarrow> AgentConfig \<Rightarrow> run_state \<Rightarrow> string \<Rightarrow> tool_result \<Rightarrow> pass_result" where
  "apply_result B cfg st tool result =
     (if tool = ''write_code'' then
        (case res_code result of
           None \<Rightarrow> Raise (KeyError ''code'')
         | Some c \<Rightarrow> Continue (st\<lparr>st_code := c, st_last_checks := [], st_phase := DOCS,
                                   st_phase_retries := 0, st_iteration := st_iteration st + 1\<rparr>))
      else if tool = ''write_docs'' then
        (case res_code result of
           None \<Rightarrow> Raise (KeyError ''code'')
         | Some c \<Rightarrow> Continue (st\<lparr>st_code := c, st_last_checks := [], st_phase := TESTS,
                                   st_phase_retries := 0, st_iteration := st_iteration st + 1\<rparr>))
      else if tool = ''write_tests'' then
        (case res_tests result of
           None \<Rightarrow> Raise (KeyError ''tests'')
         | Some t \<Rightarrow> Continue (st\<lparr>st_tests := t, st_last_checks := [], st_phase := EVALUATE,
                                   st_phase_retries := 0, st_iteration := st_iteration st + 1\<rparr>))
      else if tool = ''run_checks'' then
        (case res_ok result of
           None \<Rightarrow> Raise (KeyError ''ok'')
         | Some b \<Rightarrow>
             Continue (st\<lparr>st_last_checks := (case res_checks result of None \<Rightarrow> [] | Some cs \<Rightarrow> cs),
                          st_phase := (if b then EXPORT else FIX),
                          st_phase_retries := 0, st_iteration := st_iteration st + 1\<rparr>))
      else if tool = ''save_file'' then
        (case res_file_paths result of
           None \<Rightarrow> Raise (KeyError ''file_paths'')
         | Some paths \<Rightarrow>
             Return \<lparr>ok = True, summary = ''Generated code and tests successfully.'',
                     file_paths = Some paths, iterations = st_iteration st + 1\<rparr>)
      else if tool = ''terminate'' then
        Return \<lparr>ok = (case res_ok result of None \<Rightarrow> False | Some b \<Rightarrow> b),
                summary = py_str B (case res_summary result of None \<Rightarrow> PyStr [] | Some s \<Rightarrow> s),
                file_paths = None, iterations = st_iteration st + 1\<rparr>
      else
        (let checks = [''Unknown tool_name: '' @ tool];
             retries = st_phase_retries st + 1
         in if retries > max_phase_retries cfg then
              Return \<lparr>ok = False, summary = ''Unknown tool repeated. '' @ join ''\<newline>'' checks,
                      file_paths = None, iterations = st_iteration st + 1\<rparr>
            else Continue (st\<lparr>st_last_checks := checks, st_phase_retries := retries,
                              st_iteration := st_iteration st + 1\<rparr>)))"

text \<open>Lines 56 to 155: one pass of the loop.\<close>

definition loop_body :: "py_builtins \<Rightarrow> AgentConfig \<Rightarrow> collaborators \<Rightarrow> pydict \<Rightarrow> run_state \<Rightarrow> pass_result" where
  "loop_body B cfg E sp st =
     (let prompt = build_prompt B (snapshot_of sp st) in
      case llm_generate E (st_iteration st) prompt of
        Inl e \<Rightarrow> Raise e
      | Inr model_text \<Rightarrow>
          (case safe_parse_action B model_text of
             Inl e \<Rightarrow> Raise e
           | Inr (action, err) \<Rightarrow>
               (case action of
                  None \<Rightarrow> parse_failure cfg st err
                | Some a \<Rightarrow>
                    (case dispatch cfg E (st_iteration st) (tool_name a) (args a) sp
                            (st_code st) (st_tests st) (st_last_checks st) of
                       Inl e \<Rightarrow> tool_exception cfg st (tool_name a) e
                     | Inr result \<Rightarrow> apply_result B cfg st (tool_name a) result))))"

definition initial_state :: run_state where
  "initial_state = \<lparr>st_phase = IMPLEMENT, st_iteration = 0, st_phase_retries = 0,
                    st_code = [], st_tests = [], st_last_checks = []\<rparr>"

text \<open>The \<^verbatim>\<open>while iteration < self.config.max_iterations\<close> loop and the return after it.\<close>

function run_loop :: "py_builtins \<Rightarrow> AgentConfig \<Rightarrow> collaborators \<Rightarrow> pydict \<Rightarrow> run_state \<Rightarrow> exn + AgentResult" where
  "run_loop B cfg E sp st =
     (if st_iteration st < max_iterations cfg then
        (case loop_body B cfg E sp st of
           Continue st' \<Rightarrow> run_loop B cfg E sp st'
         | Return r \<Rightarrow> Inr r
         | Raise e \<Rightarrow> Inl e)
      else Inr \<lparr>ok = False,
                summary = ''Exceeded max_iterations='' @ str_int (max_iterations cfg) @ ''.'',
                file_paths = None, iterations = st_iteration st\<rparr>)"
  by pat_completeness auto
termination
proof (relation "measure (\<lambda>(B, cfg, E, sp, st). nat (max_iterations cfg - st_iteration st))")
  show "wf (measure (\<lambda>(B, cfg, E, sp, st). nat (max_iterations cfg - st_iteration st)))"
    by simp
next
  fix B :: py_builtins and cfg :: AgentConfig and E :: collaborators and sp :: pydict
    and st st' :: run_state
  assume lt: "st_iteration st < max_iterations cfg"
    and step: "loop_body B cfg E sp st = Continue st'"
  from step have "st_iteration st' = st_iteration st + 1"
    by (auto simp: loop_body_def parse_failure_def tool_exception_def apply_result_def Let_def
          split: sum.splits option.splits prod.splits if_splits)
  with lt show "((B, cfg, E, sp, st'), (B, cfg, E, sp, st))
      \<in> measure (\<lambda>(B, cfg, E, sp, st). nat (max_iterations cfg - st_iteration st))"
    by simp
qed

declare run_loop.simps [simp del]

definition run :: "py_builtins \<Rightarrow> AgentConfig \<Rightarrow> collaborators \<Rightarrow> pydict \<Rightarrow> exn + AgentResult" where
  "run B cfg E sp = run_loop B cfg E sp initial_state"

text \<open>
  The states at which the loop starts a pass, in order: a ghost companion of \<^const>\<open>run_loop\<close>
  with the same recursion, used to speak about the passes of a run.
\<close>

function run_passes :: "py_builtins \<Rightarrow> AgentConfig \<Rightarrow> collaborators \<Rightarrow> pydict \<Rightarrow> run_state \<Rightarrow> run_state list" where
  "run_passes B cfg E sp st =
     (if st_iteration st < max_iterations cfg then
        st # (case loop_body B cfg E sp st of
                Continue st' \<Rightarrow> run_passes B cfg E sp st'
              | Return r \<Rightarrow> []
              | Raise e \<Rightarrow> [])
      else [])"
  by pat_completeness auto
termination
proof (relation "measure (\<lambda>(B, cfg, E, sp, st). nat (max_iterations cfg - st_iteration st))")
  show "wf (measure (\<lambda>(B, cfg, E, sp, st). nat (max_iterations cfg - st_iteration st)))"
    by simp
next
  fix B :: py_builtins and cfg :: AgentConfig and E :: collaborators and sp :: pydict
    and st st' :: run_state
  assume lt: "st_iteration st < max_iterations cfg"
    and step: "loop_body B cfg E sp st = Continue st'"
  from step have "st_iteration st' = st_iteration st + 1"
    by (auto simp: loop_body_def parse_failure_def tool_exception_def apply_result_def Let_def
          split: sum.splits option.splits prod.splits if_splits)
  with lt show "((B, cfg, E, sp, st'), (B, cfg, E, sp, st))
      \<in> measure (\<lambda>(B, cfg, E, sp, st). nat (max_iterations cfg - st_iteration st))"
    by simp
qed

declare run_passes.simps [simp del]


section \<open>actions.py\<close>

text \<open>\<^verbatim>\<open>str.lower\<close> and \<^verbatim>\<open>str.isdigit\<close> on one character below 256.\<close>

definition py_lower :: "char \<Rightarrow> char" where
  "py_lower c = (let n = (of_char c :: nat) in
     if (65 \<le> n \<and> n \<le> 90) \<or> (192 \<le> n \<and> n \<le> 222 \<and> n \<noteq> 215) then char_of (n + 32) else c)"

definition isdigit :: "char \<Rightarrow> bool" where
  "isdigit c = (let n = (of_char c :: nat) in (48 \<le> n \<and> n \<le> 57) \<or> n = 178 \<or> n = 179 \<or> n = 185)"

text \<open>The character class \<^verbatim>\<open>[a-z0-9_]\<close> of \<^verbatim>\<open>_sanitize_module_name\<close> and \<^verbatim>\<open>[a-zA-Z0-9_\.]\<close> of \<^verbatim>\<open>_STD_IMPORT_RE\<close>.\<close>

definition is_module_char :: "char \<Rightarrow> bool" where
  "is_module_char c = (let n = (of_char c :: nat) in
     (97 \<le> n \<and> n \<le> 122) \<or> (48 \<le> n \<and> n \<le> 57) \<or> n = 95)"

definition is_import_char :: "char \<Rightarrow> bool" where
  "is_import_char c = (let n = (of_char c :: nat) in
     (97 \<le> n \<and> n \<le> 122) \<or> (65 \<le> n \<and> n \<le> 90) \<or> (48 \<le> n \<and> n \<le> 57) \<or> n = 95 \<or> n = 46)"

text \<open>\<^verbatim>\<open>re.sub(r"<class>+", "_", name)\<close>: every maximal run of characters of the class becomes one underscore.\<close>

fun sub_runs :: "(char \<Rightarrow> bool) \<Rightarrow> nat \<Rightarrow> string \<Rightarrow> string" where
  "sub_runs P in_run [] = []"
| "sub_runs P in_run (c # cs) =
     (if P c then (if in_run > 0 then sub_runs P 1 cs else CHR ''_'' # sub_runs P 1 cs)
      else c # sub_runs P 0 cs)"

definition strip_underscores :: "string \<Rightarrow> string" where
  "strip_underscores s =
     rev (dropWhile (\<lambda>c. c = CHR ''_'') (rev (dropWhile (\<lambda>c. c = CHR ''_'') s)))"

text \<open>The \<^verbatim>\<open>AttributeError\<close> of \<^verbatim>\<open>v.get\<close> on a value that is not a dictionary.\<close>

definition type_name :: "pyval \<Rightarrow> string" where
  "type_name v = (case v of
      PyNone \<Rightarrow> ''NoneType''
    | PyBool b \<Rightarrow> ''bool''
    | PyInt n \<Rightarrow> ''int''
    | PyFloat f \<Rightarrow> ''float''
    | PyStr s \<Rightarrow> ''str''
    | PyList xs \<Rightarrow> ''list''
    | PyDict d \<Rightarrow> ''dict'')"

definition no_attribute_get :: "pyval \<Rightarrow> exn" where
  "no_attribute_get v =
     Exn ''AttributeError'' ([CHR 0x27] @ type_name v @ [CHR 0x27] @ '' object has no attribute '' @ [CHR 0x27] @ ''get'' @ [CHR 0x27])"

definition spec_get_function_name :: "py_builtins \<Rightarrow> pydict \<Rightarrow> exn + string" where
  "spec_get_function_name B sp = (case dict_get sp ''function'' (PyDict []) of
      PyDict f \<Rightarrow>
        (case dict_get f ''name'' PyNone of
           PyStr fn \<Rightarrow>
             if strip fn \<noteq> [] then Inr (strip fn)
             else Inr (py_str B (dict_get sp ''id'' (PyStr ''generated_function'')))
         | _ \<Rightarrow> Inr (py_str B (dict_get sp ''id'' (PyStr ''generated_function''))))
    | v \<Rightarrow> Inl (no_attribute_get v))"

definition sanitize_module_name :: "string \<Rightarrow> string" where
  "sanitize_module_name name =
     (let n1 = map py_lower (strip name);
          n2 = sub_runs (\<lambda>c. \<not> is_module_char c) 0 n1;
          n3 = strip_underscores (sub_runs (\<lambda>c. c = CHR ''_'') 0 n2)
      in if n3 = [] then ''generated_module''
         else if isdigit (hd n3) then ''m_'' @ n3
         else n3)"

text \<open>
  \<^verbatim>\<open>_STD_IMPORT_RE = re.compile(r"^\s*(?:from|import)\s+([a-zA-Z0-9_\.]+)", re.MULTILINE)\<close>:
  one attempt at the head of the text (the caller checks \<^verbatim>\<open>^\<close>), giving group 1 and the
  length of the match.
\<close>

definition match_import_at :: "string \<Rightarrow> (string \<times> nat) option" where
  "match_import_at s =
     (let s1 = dropWhile isspace s;
          kw = (if prefix ''from'' s1 then Some 4 else if prefix ''import'' s1 then Some 6 else None)
      in case kw of
           None \<Rightarrow> None
         | Some k \<Rightarrow>
             (let s2 = drop k s1;
                  s3 = dropWhile isspace s2;
                  name = takeWhile is_import_char s3
              in if takeWhile isspace s2 = [] \<or> name = [] then None
                 else Some (name, length s - length s3 + length name)))"

text \<open>
  \<^verbatim>\<open>_STD_IMPORT_RE.findall(code)\<close>: \<open>skip\<close> counts the characters of the last match still to be
  passed over, \<open>bol\<close> says whether the position follows a newline or starts the text.
\<close>

fun findall_imports :: "nat \<Rightarrow> bool \<Rightarrow> string \<Rightarrow> string list" where
  "findall_imports skip bol [] = []"
| "findall_imports skip bol (c # cs) =
     (if skip > 0 then findall_imports (skip - 1) (c = CHR ''\<newline>'') cs
      else if bol then
        (case match_import_at (c # cs) of
           Some (name, n) \<Rightarrow> name # findall_imports (n - 1) (c = CHR ''\<newline>'') cs
         | None \<Rightarrow> findall_imports 0 (c = CHR ''\<newline>'') cs)
      else findall_imports 0 (c = CHR ''\<newline>'') cs)"

definition stdlib_allow :: "string list" where
  "stdlib_allow =
     [''typing'', ''types'', ''dataclasses'', ''enum'',
      ''re'', ''math'', ''json'', ''statistics'', ''random'',
      ''collections'', ''itertools'', ''functools'', ''operator'',
      ''datetime'', ''time'',
      ''pathlib'', ''os'', ''sys'', ''subprocess'', ''tempfile'',
      ''logging'', ''traceback'',
      ''unittest'',
      ''hashlib'', ''hmac'', ''secrets'',
      ''urllib'', ''http'',
      ''csv'', ''sqlite3'',
      ''decimal'', ''fractions'']"

definition detect_nonstdlib_imports :: "string \<Rightarrow> string list \<Rightarrow> string list" where
  "detect_nonstdlib_imports code' local_modules =
     filter (\<lambda>mod'. let top = takeWhile (\<lambda>c. c \<noteq> CHR ''.'') mod'
                    in top \<notin> set local_modules \<and> top \<notin> set stdlib_allow)
       (findall_imports 0 True code')"

text \<open>\<^verbatim>\<open>len(re.findall(r"def\s+test_", tests))\<close>.\<close>

definition match_def_test_at :: "string \<Rightarrow> nat option" where
  "match_def_test_at s =
     (if prefix ''def'' s then
        (let s2 = drop 3 s; ws = takeWhile isspace s2
         in if ws \<noteq> [] \<and> prefix ''test_'' (dropWhile isspace s2) then Some (3 + length ws + 5) else None)
      else None)"

fun count_def_test :: "nat \<Rightarrow> string \<Rightarrow> nat" where
  "count_def_test skip [] = 0"
| "count_def_test skip (c # cs) =
     (if skip > 0 then count_def_test (skip - 1) cs
      else (case match_def_test_at (c # cs) of
              Some n \<Rightarrow> Suc (count_def_test (n - 1) cs)
            | None \<Rightarrow> count_def_test 0 cs))"

text \<open>\<^verbatim>\<open>repr\<close> of a list of import names (letters, digits, underscore and dot only).\<close>

definition repr_names :: "string list \<Rightarrow> string" where
  "repr_names xs = ''['' @ join '', '' (map (\<lambda>x. [CHR 0x27] @ x @ [CHR 0x27]) xs) @ '']''"

text \<open>
  What happens inside the \<^verbatim>\<open>try\<close> of \<^verbatim>\<open>run_checks\<close> is the operating system's: the temporary
  directory, the two files and the two child processes. It is a parameter giving, for the
  module name, code and tests, how far the block got.
\<close>

record completed_process =
  returncode :: int
  stdout :: string
  stderr :: string

datatype process_outcome =
    RaisedBeforeCompile exn
  | RaisedAfterCompile completed_process exn
  | BothRan completed_process completed_process "exn option"

definition compile_checks :: "completed_process \<Rightarrow> string list" where
  "compile_checks p =
     (if returncode p \<noteq> 0 then
        (let err = strip (if stderr p \<noteq> [] then stderr p else stdout p)
         in [''py_compile failed: '' @ (if err \<noteq> [] then err else ''unknown compile error'')])
      else [])"

definition unittest_checks :: "completed_process \<Rightarrow> string list" where
  "unittest_checks p =
     (if returncode p \<noteq> 0 then
        (let msg = strip (stdout p @ ''\<newline>'' @ stderr p)
         in [''unittest failed: '' @ (if msg \<noteq> [] then msg else ''unknown unittest error'')])
      else [])"

definition exception_checks :: "exn \<Rightarrow> string list" where
  "exception_checks e = [''Exception during checks: '' @ exn_type e @ '': '' @ exn_msg e]"

definition process_checks :: "process_outcome \<Rightarrow> string list" where
  "process_checks out = (case out of
      RaisedBeforeCompile e \<Rightarrow> exception_checks e
    | RaisedAfterCompile pc e \<Rightarrow> compile_checks pc @ exception_checks e
    | BothRan pc pt eo \<Rightarrow>
        compile_checks pc @ unittest_checks pt @ (case eo of None \<Rightarrow> [] | Some e \<Rightarrow> exception_checks e))"

text \<open>The three checks \<^verbatim>\<open>run_checks\<close> makes before the \<^verbatim>\<open>try\<close> (lines 196 to 209).\<close>

definition definition_checks :: "string \<Rightarrow> string \<Rightarrow> string list" where
  "definition_checks fn_name code' =
     (if \<not> sublist (''def '' @ fn_name @ ''('') code'
      then [''Function definition not found: def '' @ fn_name @ ''(...).'']
      else [])"

definition import_checks :: "pydict \<Rightarrow> string \<Rightarrow> string \<Rightarrow> string \<Rightarrow> string list" where
  "import_checks sp fn_name code' tests' =
     (if truthy (dict_get sp ''stdlib_only'' (PyBool False)) then
        (let local_mods = [sanitize_module_name fn_name];
             bad = detect_nonstdlib_imports (code' @ ''\<newline>'' @ tests') local_mods
         in if bad \<noteq> [] then [''Non-stdlib imports detected: '' @ repr_names (sort (remdups bad))]
            else [])
      else [])"

definition test_count_checks :: "string \<Rightarrow> int \<Rightarrow> string list" where
  "test_count_checks tests' min_tests =
     (let test_methods = int (count_def_test 0 tests')
      in if test_methods < min_tests then
           [''Not enough tests: found '' @ str_int test_methods @
            '', expected >= '' @ str_int min_tests @ ''.'']
         else [])"

definition run_checks ::
  "py_builtins \<Rightarrow> (string \<Rightarrow> string \<Rightarrow> string \<Rightarrow> process_outcome) \<Rightarrow> pydict \<Rightarrow> string \<Rightarrow> string \<Rightarrow> bool \<Rightarrow> pydict
     \<Rightarrow> exn + (bool \<times> string list)" where
  "run_checks B procs sp code' tests' strict' user_args =
     (case spec_get_function_name B sp of
        Inl e \<Rightarrow> Inl e
      | Inr fn_name \<Rightarrow>
          (case (let q = dict_get sp ''quality'' (PyDict []) in if truthy q then q else PyDict []) of
             PyDict quality \<Rightarrow>
               (case py_int B (let m = dict_get quality ''min_tests'' (PyInt 3)
                               in if truthy m then m else PyInt 3) of
                  Inl e \<Rightarrow> Inl e
                | Inr min_tests \<Rightarrow>
                    (let module_name = sanitize_module_name fn_name;
                         checks = definition_checks fn_name code'
                                  @ import_checks sp fn_name code' tests'
                                  @ test_count_checks tests' min_tests
                                  @ process_checks (procs module_name code' tests')
                     in Inr (checks = [], checks)))
           | v \<Rightarrow> Inl (no_attribute_get v)))"

section \<open>Concrete collaborators\<close>

text \<open>
  Stand-ins used to run the model on concrete inputs. \<open>example_json_loads\<close> is
  \<^verbatim>\<open>json.loads\<close> on the documents listed, and a decode error elsewhere.
\<close>

definition example_json_loads :: "string \<Rightarrow> exn + pyval" where
  \<open>example_json_loads s =
     (if s = ''{"tool_name":"write_code","args":{"x":1}}'' then
        Inr (PyDict [(''tool_name'', PyStr ''write_code''), (''args'', PyDict [(''x'', PyInt 1)])])
      else if s = ''{"tool_name":"run_checks","args":{}}'' then
        Inr (PyDict [(''tool_name'', PyStr ''run_checks''), (''args'', PyDict [])])
      else if s = ''{"tool_name":"save_file","args":{}}'' then
        Inr (PyDict [(''tool_name'', PyStr ''save_file''), (''args'', PyDict [])])
      else if s = ''{"tool_name":"terminate","args":{"summary":"Unknown phase"}}'' then
        Inr (PyDict [(''tool_name'', PyStr ''terminate''),
                     (''args'', PyDict [(''summary'', PyStr ''Unknown phase'')])])
      else if s = ''{"tool_name":"frobnicate","args":{}}'' then
        Inr (PyDict [(''tool_name'', PyStr ''frobnicate''), (''args'', PyDict [])])
      else Inl (Exn ''JSONDecodeError'' ''Expecting value: line 1 column 1 (char 0)''))\<close>

definition example_builtins :: py_builtins where
  "example_builtins =
     \<lparr>json_loads = example_json_loads,
      py_repr = (\<lambda>v. ''{}''),
      py_int = (\<lambda>v. case v of
                   PyInt n \<Rightarrow> Inr n
                 | PyBool b \<Rightarrow> Inr (if b then 1 else 0)
                 | _ \<Rightarrow> Inl (Exn ''TypeError'' ''int() argument must be a string or a real number''))\<rparr>"

text \<open>
  A document of a thousand opening brackets, on which \<^verbatim>\<open>json.loads\<close> of CPython 3.11 raises
  \<^verbatim>\<open>RecursionError\<close> (and not \<^verbatim>\<open>JSONDecodeError\<close>), and a stand-in that does so.
\<close>

definition deep_array :: string where
  "deep_array = replicate 1000 (CHR ''['')"

definition nested_json_loads :: "string \<Rightarrow> exn + pyval" where
  "nested_json_loads s =
     (if s = deep_array then
        Inl (Exn ''RecursionError''
               ''maximum recursion depth exceeded while decoding a JSON array from a unicode string'')
      else example_json_loads s)"

definition nested_builtins :: py_builtins where
  "nested_builtins = example_builtins\<lparr>json_loads := nested_json_loads\<rparr>"

definition default_config :: AgentConfig where
  "default_config = \<lparr>max_iterations = 8, max_phase_retries = 2, strict = True, out_dir = ''generated''\<rparr>"

definition tight_config :: AgentConfig where
  "tight_config = \<lparr>max_iterations = 2, max_phase_retries = 2, strict = True, out_dir = ''generated''\<rparr>"

text \<open>\<^verbatim>\<open>AgentConfig(max_phase_retries=-1)\<close> and \<^verbatim>\<open>AgentConfig(max_iterations=-1)\<close>.\<close>

definition negative_retries_config :: AgentConfig where
  "negative_retries_config = \<lparr>max_iterations = 8, max_phase_retries = - 1, strict = True, out_dir = ''generated''\<rparr>"


definition not_called :: exn where
  "not_called = Exn ''RuntimeError'' ''should not be called''"

text \<open>Collaborators whose generator always answers \<open>reply\<close> and whose tools all raise.\<close>

definition scripted :: "(exn + string) \<Rightarrow> collaborators" where
  "scripted reply =
     \<lparr>llm_generate = (\<lambda>i prompt. reply),
      tool_write_code = (\<lambda>i sp c fc ua. Inl not_called),
      tool_write_docs = (\<lambda>i sp c ua. Inl not_called),
      tool_write_tests = (\<lambda>i sp c ua. Inl not_called),
      tool_run_checks = (\<lambda>i sp c t s ua. Inl not_called),
      tool_save_file = (\<lambda>i sp c t od ua. Inl not_called)\<rparr>"

definition llm_unconfigured :: collaborators where
  "llm_unconfigured = scripted (Inl (Exn ''LLMError'' ''OPENAI_API_KEY is not set in environment.''))"

definition llm_blank :: collaborators where
  "llm_blank = scripted (Inr [])"

definition llm_frobnicate :: collaborators where
  \<open>llm_frobnicate = scripted (Inr ''```action\<newline>{"tool_name":"frobnicate","args":{}}\<newline>```'')\<close>

definition llm_terminate :: collaborators where
  \<open>llm_terminate =
     scripted (Inr ''```action\<newline>{"tool_name":"terminate","args":{"summary":"Unknown phase"}}\<newline>```'')\<close>

definition llm_run_checks :: collaborators where
  \<open>llm_run_checks =
     (scripted (Inr ''```action\<newline>{"tool_name":"run_checks","args":{}}\<newline>```''))
       \<lparr>tool_run_checks := (\<lambda>i sp c t s ua. Inr (ChecksResult False [''unittest failed: boom'']))\<rparr>\<close>

text \<open>A verify tool that returns the empty dictionary.\<close>

definition llm_keyless :: collaborators where
  \<open>llm_keyless =
     (scripted (Inr ''```action\<newline>{"tool_name":"run_checks","args":{}}\<newline>```''))
       \<lparr>tool_run_checks := (\<lambda>i sp c t s ua. Inr empty_result)\<rparr>\<close>

text \<open>A generator whose reply is an action block holding the document of a thousand brackets.\<close>

definition deep_reply :: string where
  \<open>deep_reply = ''```action\<newline>'' @ deep_array @ ''\<newline>```''\<close>

definition llm_nested :: collaborators where
  "llm_nested = scripted (Inr deep_reply)"

definition evaluate_state :: run_state where
  "evaluate_state = \<lparr>st_phase = EVALUATE, st_iteration = 3, st_phase_retries = 1,
                     st_code = ''def foo(): pass'', st_tests = ''def test_foo(): pass'', st_last_checks = []\<rparr>"

text \<open>A state in phase Fix, after a verification that returned two check failures.\<close>

definition fix_state :: run_state where
  "fix_state = \<lparr>st_phase = FIX, st_iteration = 4, st_phase_retries = 0,
                st_code = ''def foo(): pass'', st_tests = ''def test_foo(): pass'',
                st_last_checks = [''unittest failed: boom'', ''Not enough tests: found 1, expected >= 3.'']\<rparr>"

section \<open>Notions used to state the properties\<close>

text \<open>
  A text contains a fenced block of the action type when an opening \<^verbatim>\<open>```action\<close>, in any
  mix of upper and lower case, is followed somewhere later by a closing \<^verbatim>\<open>```\<close>.
\<close>

definition has_action_fence :: "string \<Rightarrow> bool" where
  "has_action_fence text =
     (\<exists>pre opening body post.
        text = pre @ opening @ body @ ''```'' @ post \<and> map ascii_lower opening = ''```action'')"


definition parse_fails :: "py_builtins \<Rightarrow> collaborators \<Rightarrow> pydict \<Rightarrow> run_state \<Rightarrow> bool" where
  "parse_fails B E sp st =
     (case llm_generate E (st_iteration st) (build_prompt B (snapshot_of sp st)) of
        Inl e \<Rightarrow> False
      | Inr model_text \<Rightarrow>
          (case safe_parse_action B model_text of
             Inr (None, err) \<Rightarrow> True
           | _ \<Rightarrow> False))"

text \<open>
  The claim about the prompt speaks of the ten most recent check messages. A check list is
  built by appending, so its most recent entries are its last ones.
\<close>

definition ten_most_recent :: "string list \<Rightarrow> string list" where
  "ten_most_recent cs = drop (length cs - 10) cs"

definition eleven_checks :: "string list" where
  "eleven_checks = [''c1'', ''c2'', ''c3'', ''c4'', ''c5'', ''c6'', ''c7'', ''c8'', ''c9'', ''c10'', ''c11'']"

definition eleven_snapshot :: MemorySnapshot where
  "eleven_snapshot = \<lparr>phase = FIX, spec = [], code = [], tests = [], last_checks = Some eleven_checks,
                       iteration = 4, phase_retries = 0\<rparr>"

text \<open>
  A specification that \<^verbatim>\<open>run_checks\<close> can read: the \<^verbatim>\<open>function\<close> entry, when present, is a
  dictionary; the \<^verbatim>\<open>quality\<close> entry, when present and true, is a dictionary; and \<^verbatim>\<open>int\<close>
  accepts the \<^verbatim>\<open>min_tests\<close> value.
\<close>

definition spec_readable :: "py_builtins \<Rightarrow> pydict \<Rightarrow> bool" where
  "spec_readable B sp =
     ((case dict_get sp ''function'' (PyDict []) of PyDict f \<Rightarrow> True | _ \<Rightarrow> False)
      \<and> (case (let q = dict_get sp ''quality'' (PyDict []) in if truthy q then q else PyDict []) of
            PyDict quality \<Rightarrow>
              (case py_int B (let m = dict_get quality ''min_tests'' (PyInt 3)
                              in if truthy m then m else PyInt 3) of
                 Inl e \<Rightarrow> False
               | Inr n \<Rightarrow> True)
          | _ \<Rightarrow> False))"

text \<open>The inputs of \<^verbatim>\<open>test_run_checks_detects_missing_function\<close>, with both child processes succeeding.\<close>

definition missing_function_spec :: pydict where
  "missing_function_spec =
     [(''id'', PyStr ''x''), (''stdlib_only'', PyBool True),
      (''function'', PyDict [(''name'', PyStr ''foo''), (''args'', PyList []), (''returns'', PyStr ''int'')])]"

definition missing_function_code :: string where
  "missing_function_code = ''def bar():\<newline>    return 1\<newline>''"

definition missing_function_tests :: string where
  "missing_function_tests =
     ''import unittest\<newline>\<newline>class T(unittest.TestCase):\<newline>    def test_ok(self):\<newline>        self.assertTrue(True)\<newline>''"

definition quiet_processes :: "string \<Rightarrow> string \<Rightarrow> string \<Rightarrow> process_outcome" where
  "quiet_processes module_name code' tests' =
     BothRan \<lparr>returncode = 0, stdout = [], stderr = []\<rparr> \<lparr>returncode = 0, stdout = [], stderr = []\<rparr> None"

section \<open>The loop, one pass at a time\<close>

lemma run_loop_Continue:
  "st_iteration st < max_iterations cfg \<Longrightarrow> loop_body B cfg E sp st = Continue st'
     \<Longrightarrow> run_loop B cfg E sp st = run_loop B cfg E sp st'"
  by (subst run_loop.simps) simp

lemma run_loop_Return:
  "st_iteration st < max_iterations cfg \<Longrightarrow> loop_body B cfg E sp st = Return r
     \<Longrightarrow> run_loop B cfg E sp st = Inr r"
  by (subst run_loop.simps) simp

lemma run_loop_Raise:
  "st_iteration st < max_iterations cfg \<Longrightarrow> loop_body B cfg E sp st = Raise e
     \<Longrightarrow> run_loop B cfg E sp st = Inl e"
  by (subst run_loop.simps) simp

lemma run_loop_exceeded:
  "\<not> st_iteration st < max_iterations cfg
     \<Longrightarrow> run_loop B cfg E sp st =
         Inr \<lparr>ok = False, summary = ''Exceeded max_iterations='' @ str_int (max_iterations cfg) @ ''.'',
               file_paths = None, iterations = st_iteration st\<rparr>"
  by (subst run_loop.simps) simp

lemma parse_run_checks_example:
  \<open>safe_parse_action example_builtins ''```action\<newline>{"tool_name":"run_checks","args":{}}\<newline>```''
     = Inr (Some \<lparr>tool_name = ''run_checks'', args = []\<rparr>, None)\<close>
  by code_simp

lemma parse_terminate_example:
  \<open>safe_parse_action example_builtins
       ''```action\<newline>{"tool_name":"terminate","args":{"summary":"Unknown phase"}}\<newline>```''
     = Inr (Some \<lparr>tool_name = ''terminate'', args = [(''summary'', PyStr ''Unknown phase'')]\<rparr>, None)\<close>
  by code_simp

text \<open>
  C2. In phase Evaluate (and in every other phase: the code does not look at it), when the
  generator's text parses to \<^verbatim>\<open>run_checks\<close> and the verify tool returns normally a
  dictionary holding \<^verbatim>\<open>ok\<close> and \<^verbatim>\<open>checks\<close>, the pass continues with the phase-retry counter
  at 0 and the returned check list as \<^verbatim>\<open>last_checks\<close>; the next phase is Export when
  \<^verbatim>\<open>ok\<close> is true and Fix when it is false. The snapshot built from that state carries the
  list unchanged (an empty list is stored as \<^verbatim>\<open>None\<close>, which \<^verbatim>\<open>build_prompt\<close> treats alike).
\<close>

theorem verify_outcome_transition:
  assumes gen: "llm_generate E (st_iteration st) (build_prompt B (snapshot_of sp st)) = Inr text"
    and parse: "safe_parse_action B text = Inr (Some a, err)"
    and tool: "tool_name a = ''run_checks''"
    and verify: "tool_run_checks E (st_iteration st) sp (st_code st) (st_tests st) (strict cfg) (args a)
                   = Inr result"
    and outcome: "res_ok result = Some passed" "res_checks result = Some checks"
  shows "\<exists>st'. loop_body B cfg E sp st = Continue st'
           \<and> st_phase st' = (if passed then EXPORT else FIX)
           \<and> st_phase_retries st' = 0
           \<and> st_last_checks st' = checks
           \<and> st_iteration st' = st_iteration st + 1
           \<and> st_code st' = st_code st \<and> st_tests st' = st_tests st
           \<and> phase (snapshot_of sp st') = (if passed then EXPORT else FIX)
           \<and> phase_retries (snapshot_of sp st') = 0
           \<and> last_checks (snapshot_of sp st') = (if checks = [] then None else Some checks)"
  using assms
  by (simp add: loop_body_def dispatch_def apply_result_def snapshot_of_def)

theorem verify_outcome_transition_witness:
  \<open>st_phase evaluate_state = EVALUATE
   \<and> llm_generate llm_run_checks (st_iteration evaluate_state)
        (build_prompt example_builtins (snapshot_of [] evaluate_state))
      = Inr ''```action\<newline>{"tool_name":"run_checks","args":{}}\<newline>```''
   \<and> safe_parse_action example_builtins ''```action\<newline>{"tool_name":"run_checks","args":{}}\<newline>```''
      = Inr (Some \<lparr>tool_name = ''run_checks'', args = []\<rparr>, None)
   \<and> tool_run_checks llm_run_checks (st_iteration evaluate_state) [] (st_code evaluate_state)
        (st_tests evaluate_state) (strict default_config) []
      = Inr (ChecksResult False [''unittest failed: boom''])
   \<and> res_ok (ChecksResult False [''unittest failed: boom'']) = Some False
   \<and> res_checks (ChecksResult False [''unittest failed: boom'']) = Some [''unittest failed: boom'']
   \<and> loop_body example_builtins default_config llm_run_checks [] evaluate_state
      = Continue \<lparr>st_phase = FIX, st_iteration = 4, st_phase_retries = 0,
                  st_code = ''def foo(): pass'', st_tests = ''def test_foo(): pass'',
                  st_last_checks = [''unittest failed: boom'']\<rparr>\<close>
proof -
  have gen: \<open>llm_generate llm_run_checks (st_iteration evaluate_state)
        (build_prompt example_builtins (snapshot_of [] evaluate_state))
      = Inr ''```action\<newline>{"tool_name":"run_checks","args":{}}\<newline>```''\<close>
    by (simp add: llm_run_checks_def scripted_def)
  have verify: "tool_run_checks llm_run_checks (st_iteration evaluate_state) [] (st_code evaluate_state)
        (st_tests evaluate_state) (strict default_config) (args \<lparr>tool_name = ''run_checks'', args = []\<rparr>)
      = Inr (ChecksResult False [''unittest failed: boom''])"
    by (simp add: llm_run_checks_def scripted_def)
  have passed: "res_ok (ChecksResult False [''unittest failed: boom'']) = Some False"
    by (simp add: ChecksResult_def empty_result_def)
  have checks: "res_checks (ChecksResult False [''unittest failed: boom'']) = Some [''unittest failed: boom'']"
    by (simp add: ChecksResult_def empty_result_def)
  from verify_outcome_transition [OF gen parse_run_checks_example _ verify passed checks]
  obtain st' where "loop_body example_builtins default_config llm_run_checks [] evaluate_state = Continue st'"
    and "st_phase st' = FIX" "st_phase_retries st' = 0" "st_last_checks st' = [''unittest failed: boom'']"
    "st_iteration st' = st_iteration evaluate_state + 1" "st_code st' = st_code evaluate_state"
    "st_tests st' = st_tests evaluate_state"
    by auto
  then have "loop_body example_builtins default_config llm_run_checks [] evaluate_state
      = Continue \<lparr>st_phase = FIX, st_iteration = 4, st_phase_retries = 0,
                  st_code = ''def foo(): pass'', st_tests = ''def test_foo(): pass'',
                  st_last_checks = [''unittest failed: boom'']\<rparr>"
    by (cases st') (simp add: evaluate_state_def)
  with gen verify passed checks parse_run_checks_example show ?thesis
    by (simp add: evaluate_state_def)
qed

text \<open>
  C5. Whatever the phase, when the generator's text parses to \<^verbatim>\<open>terminate\<close> the dispatch
  returns the outcome \<^verbatim>\<open>{"ok": True, "summary": args.get("summary", "Terminated.")}\<close>, the pass
  returns at once, and the result's \<^verbatim>\<open>ok\<close> is the outcome's flag and its summary is
  \<^verbatim>\<open>str\<close> of the outcome's summary; the run ends with that result in this pass.
\<close>

theorem terminate_ends_run:
  assumes gen: "llm_generate E (st_iteration st) (build_prompt B (snapshot_of sp st)) = Inr text"
    and parse: "safe_parse_action B text = Inr (Some a, err)"
    and tool: "tool_name a = ''terminate''"
    and budget: "st_iteration st < max_iterations cfg"
  shows "\<exists>flag s.
           dispatch cfg E (st_iteration st) (tool_name a) (args a) sp (st_code st) (st_tests st) (st_last_checks st)
             = Inr (TerminateResult flag s)
           \<and> s = dict_get (args a) ''summary'' (PyStr ''Terminated.'')
           \<and> loop_body B cfg E sp st =
               Return \<lparr>ok = flag, summary = py_str B s, file_paths = None, iterations = st_iteration st + 1\<rparr>
           \<and> run_loop B cfg E sp st =
               Inr \<lparr>ok = flag, summary = py_str B s, file_paths = None, iterations = st_iteration st + 1\<rparr>"
proof -
  have d: "dispatch cfg E (st_iteration st) (tool_name a) (args a) sp (st_code st) (st_tests st) (st_last_checks st)
             = Inr (TerminateResult True (dict_get (args a) ''summary'' (PyStr ''Terminated.'')))"
    using tool by (simp add: dispatch_def)
  have b: "loop_body B cfg E sp st =
      Return \<lparr>ok = True, summary = py_str B (dict_get (args a) ''summary'' (PyStr ''Terminated.'')),
              file_paths = None, iterations = st_iteration st + 1\<rparr>"
    using gen parse tool d by (simp add: loop_body_def apply_result_def TerminateResult_def empty_result_def)
  show ?thesis
    by (rule exI [of _ True], rule exI [of _ "dict_get (args a) ''summary'' (PyStr ''Terminated.'')"])
       (intro conjI d refl b run_loop_Return [OF budget b])
qed

theorem terminate_ends_run_witness:
  \<open>llm_generate llm_terminate (st_iteration evaluate_state)
        (build_prompt example_builtins (snapshot_of [] evaluate_state))
      = Inr ''```action\<newline>{"tool_name":"terminate","args":{"summary":"Unknown phase"}}\<newline>```''
   \<and> st_iteration evaluate_state < max_iterations default_config
   \<and> run_loop example_builtins default_config llm_terminate [] evaluate_state
      = Inr \<lparr>ok = True, summary = ''Unknown phase'', file_paths = None, iterations = 4\<rparr>\<close>
proof -
  have gen: \<open>llm_generate llm_terminate (st_iteration evaluate_state)
        (build_prompt example_builtins (snapshot_of [] evaluate_state))
      = Inr ''```action\<newline>{"tool_name":"terminate","args":{"summary":"Unknown phase"}}\<newline>```''\<close>
    by (simp add: llm_terminate_def scripted_def)
  have budget: "st_iteration evaluate_state < max_iterations default_config"
    by (simp add: evaluate_state_def default_config_def)
  from terminate_ends_run [OF gen parse_terminate_example _ budget]
  have "run_loop example_builtins default_config llm_terminate [] evaluate_state
      = Inr \<lparr>ok = True, summary = ''Unknown phase'', file_paths = None, iterations = 4\<rparr>"
    by (auto simp: dict_get_def py_str_def evaluate_state_def dispatch_def TerminateResult_def
          empty_result_def)
  with gen budget show ?thesis by simp
qed

section \<open>White space and stripping\<close>

lemma backtick_not_space [simp]: "\<not> isspace (CHR 0x60)"
  by (simp add: isspace_def)

lemma lstrip_eq_Nil: "lstrip s = [] \<longleftrightarrow> (\<forall>c\<in>set s. isspace c)"
  by (simp add: lstrip_def dropWhile_eq_Nil_conv)

lemma rstrip_eq_Nil: "rstrip s = [] \<longleftrightarrow> (\<forall>c\<in>set s. isspace c)"
  by (simp add: rstrip_def dropWhile_eq_Nil_conv)

lemma set_lstrip: "set (lstrip s) \<subseteq> set s"
  by (simp add: lstrip_def set_dropWhileD subsetI)

lemma strip_eq_Nil: "strip s = [] \<longleftrightarrow> (\<forall>c\<in>set s. isspace c)"
proof
  assume "strip s = []"
  then have "\<forall>c\<in>set (lstrip s). isspace c"
    by (simp add: strip_def rstrip_eq_Nil)
  then have "lstrip s = []"
    unfolding lstrip_def using hd_dropWhile [of isspace s] by (metis list.set_sel(1))
  then show "\<forall>c\<in>set s. isspace c"
    by (simp add: lstrip_eq_Nil)
next
  assume "\<forall>c\<in>set s. isspace c"
  then have "dropWhile isspace s = []"
    by (simp add: dropWhile_eq_Nil_conv)
  then show "strip s = []"
    by (auto simp: strip_def lstrip_def rstrip_def dest: set_dropWhileD)
qed

lemma rstrip_Cons: "rstrip (x # xs) = (if \<forall>c\<in>set (x # xs). isspace c then [] else x # rstrip xs)"
proof (cases "\<forall>c\<in>set xs. isspace c")
  case True
  then have "dropWhile isspace (rev xs) = []" by simp
  then show ?thesis
    using True by (simp add: rstrip_def dropWhile_append)
next
  case False
  then show ?thesis
    by (auto simp: rstrip_def dropWhile_append)
qed

lemma lstrip_no_leading: "lstrip s = c # cs \<Longrightarrow> \<not> isspace c"
  unfolding lstrip_def using hd_dropWhile [of isspace s] by fastforce

lemma lstrip_id: "s = [] \<or> \<not> isspace (hd s) \<Longrightarrow> lstrip s = s"
  by (cases s) (auto simp: lstrip_def)

lemma rstrip_rstrip: "rstrip (rstrip s) = rstrip s"
  by (simp add: rstrip_def)

lemma hd_rstrip: "rstrip s \<noteq> [] \<Longrightarrow> hd (rstrip s) = hd s"
proof (cases s)
  case Nil
  then show "rstrip s \<noteq> [] \<Longrightarrow> hd (rstrip s) = hd s" by (simp add: rstrip_def)
next
  case (Cons x xs)
  assume "rstrip s \<noteq> []"
  with Cons show "hd (rstrip s) = hd s"
    by (auto simp: rstrip_Cons split: if_splits)
qed

lemma strip_strip: "strip (strip s) = strip s"
proof -
  let ?t = "lstrip s"
  have "lstrip (rstrip ?t) = rstrip ?t"
  proof (cases "rstrip ?t = []")
    case True
    then show ?thesis by (simp add: lstrip_def)
  next
    case False
    then have ne: "?t \<noteq> []" by (auto simp: rstrip_def)
    then obtain c cs where t: "?t = c # cs" by (cases ?t) auto
    from lstrip_no_leading [OF t] hd_rstrip [OF False] t
    have "\<not> isspace (hd (rstrip ?t))" by simp
    then show ?thesis by (intro lstrip_id) simp
  qed
  then show ?thesis
    by (simp add: strip_def rstrip_rstrip)
qed

section \<open>The fence pattern\<close>

lemma match_literal_ci_Some:
  "match_literal_ci p s = Some r \<longleftrightarrow>
     (\<exists>m. s = m @ r \<and> length m = length p \<and> map ascii_lower m = map ascii_lower p)"
proof (induction p s rule: match_literal_ci.induct)
  case (1 s)
  then show ?case by auto
next
  case (2 p ps)
  then show ?case by auto
next
  case (3 p ps c cs)
  show ?case
  proof (cases "ascii_lower c = ascii_lower p")
    case True
    have "(\<exists>m. c # cs = m @ r \<and> length m = length (p # ps) \<and> map ascii_lower m = map ascii_lower (p # ps))
        \<longleftrightarrow> (\<exists>m'. cs = m' @ r \<and> length m' = length ps \<and> map ascii_lower m' = map ascii_lower ps)"
      (is "?L \<longleftrightarrow> ?R")
    proof
      assume ?L
      then obtain m where m: "c # cs = m @ r" "length m = length (p # ps)"
        "map ascii_lower m = map ascii_lower (p # ps)" by blast
      then obtain m' where "m = c # m'" by (cases m) auto
      with m show ?R by auto
    next
      assume ?R
      then obtain m' where "cs = m' @ r" "length m' = length ps" "map ascii_lower m' = map ascii_lower ps"
        by blast
      with True have "c # cs = (c # m') @ r \<and> length (c # m') = length (p # ps)
          \<and> map ascii_lower (c # m') = map ascii_lower (p # ps)" by simp
      then show ?L by blast
    qed
    with True 3 show ?thesis by simp
  next
    case False
    have "\<not> (\<exists>m. c # cs = m @ r \<and> length m = length (p # ps) \<and> map ascii_lower m = map ascii_lower (p # ps))"
    proof
      assume "\<exists>m. c # cs = m @ r \<and> length m = length (p # ps) \<and> map ascii_lower m = map ascii_lower (p # ps)"
      then obtain m where m: "c # cs = m @ r" "length m = length (p # ps)"
        "map ascii_lower m = map ascii_lower (p # ps)" by blast
      then obtain m' where "m = c # m'" by (cases m) auto
      with m False show False by auto
    qed
    with False show ?thesis by simp
  qed
qed

lemma marker_lower: "map ascii_lower ''```action'' = ''```action''"
  by (simp add: ascii_lower_def)

lemma sublist_fence_dropWhile:
  "sublist ''```'' s \<Longrightarrow> sublist ''```'' (dropWhile isspace s)"
proof (induction s)
  case Nil
  then show ?case by simp
next
  case (Cons c cs)
  show ?case
  proof (cases "isspace c")
    case True
    with Cons.prems have "sublist ''```'' cs"
      by (auto simp: sublist_Cons_right)
    with Cons.IH True show ?thesis by simp
  next
    case False
    with Cons.prems show ?thesis by simp
  qed
qed

lemma lazy_body_complete: "sublist ''```'' s \<Longrightarrow> lazy_body s \<noteq> None"
proof (induction s)
  case Nil
  then show ?case by simp
next
  case (Cons c cs)
  show ?case
  proof (cases "prefix ''```'' (dropWhile isspace (c # cs))")
    case True
    then show ?thesis by simp
  next
    case False
    have "\<not> prefix ''```'' (c # cs)"
    proof
      assume p: "prefix ''```'' (c # cs)"
      then have "c = CHR 0x60" by simp
      with p False show False by simp
    qed
    with Cons.prems have "sublist ''```'' cs"
      unfolding sublist_Cons_right [of _ c cs] by blast
    with Cons.IH False show ?thesis by simp
  qed
qed

lemma split_leading_space:
  "\<exists>w. w @ dropWhile isspace s = s \<and> (\<forall>c\<in>set w. isspace c)"
proof (intro exI conjI)
  show "takeWhile isspace s @ dropWhile isspace s = s" by simp
  show "\<forall>c\<in>set (takeWhile isspace s). isspace c" by (auto dest: set_takeWhileD)
qed

lemma lazy_body_sound:
  "lazy_body s = Some b \<Longrightarrow> \<exists>w rest. s = b @ w @ ''```'' @ rest \<and> (\<forall>c\<in>set w. isspace c)"
proof (induction s arbitrary: b)
  case Nil
  then show ?case by simp
next
  case (Cons c cs)
  show ?case
  proof (cases "prefix ''```'' (dropWhile isspace (c # cs))")
    case True
    with Cons.prems have b: "b = []" by simp
    from True obtain rest where d: "dropWhile isspace (c # cs) = ''```'' @ rest"
      unfolding prefix_def by blast
    from split_leading_space [of "c # cs"] obtain w where
      w: "w @ dropWhile isspace (c # cs) = c # cs" "\<forall>x\<in>set w. isspace x" by blast
    from w(1) have "c # cs = b @ w @ ''```'' @ rest" unfolding d b by simp
    with w(2) show ?thesis by blast
  next
    case False
    with Cons.prems obtain b' where b': "lazy_body cs = Some b'" "b = c # b'"
      by auto
    from Cons.IH [OF b'(1)] obtain w rest where wr: "cs = b' @ w @ ''```'' @ rest" "\<forall>x\<in>set w. isspace x"
      by blast
    from wr(1) b'(2) have "c # cs = b @ w @ ''```'' @ rest" by simp
    with wr(2) show ?thesis by blast
  qed
qed

lemma match_fence_at_sound:
  assumes "match_fence_at s = Some b"
  shows "\<exists>opener w1 w2 rest. s = opener @ w1 @ b @ w2 @ ''```'' @ rest
           \<and> map ascii_lower opener = ''```action''
           \<and> (\<forall>c\<in>set w1. isspace c) \<and> (\<forall>c\<in>set w2. isspace c)"
proof -
  obtain r where r: "match_literal_ci ''```action'' s = Some r"
    and lb: "lazy_body (dropWhile isspace r) = Some b"
  proof (cases "match_literal_ci ''```action'' s")
    case None
    with assms show ?thesis by (simp only: match_fence_at_def option.case option.distinct)
  next
    case (Some r)
    with assms have "lazy_body (dropWhile isspace r) = Some b"
      by (simp only: match_fence_at_def option.case)
    with Some that show ?thesis by blast
  qed
  from r have "\<exists>m. s = m @ r \<and> length m = length ''```action''
      \<and> map ascii_lower m = map ascii_lower ''```action''"
    by (simp only: match_literal_ci_Some)
  then obtain opener where op0: "s = opener @ r" "map ascii_lower opener = map ascii_lower ''```action''"
    by blast
  from op0(2) have op2: "map ascii_lower opener = ''```action''"
    by (simp only: marker_lower)
  note op = op0(1) op2
  from lazy_body_sound [OF lb] obtain w2 rest where
    d: "dropWhile isspace r = b @ w2 @ ''```'' @ rest" and w2: "\<forall>c\<in>set w2. isspace c"
    by blast
  from split_leading_space [of r] obtain w1 where
    w1: "w1 @ dropWhile isspace r = r" "\<forall>c\<in>set w1. isspace c" by blast
  from w1(1) have "r = w1 @ b @ w2 @ ''```'' @ rest" unfolding d by simp
  with op(1) have eq: "s = opener @ w1 @ b @ w2 @ ''```'' @ rest" by simp
  show ?thesis
    by (rule exI [of _ opener], rule exI [of _ w1], rule exI [of _ w2], rule exI [of _ rest])
       (intro conjI eq op(2) w1(2) w2)
qed

lemma search_sound:
  "ACTION_FENCE_search t = Some b \<Longrightarrow>
     \<exists>pre opener w1 w2 rest. t = pre @ opener @ w1 @ b @ w2 @ ''```'' @ rest
        \<and> map ascii_lower opener = ''```action''
        \<and> (\<forall>c\<in>set w1. isspace c) \<and> (\<forall>c\<in>set w2. isspace c)"
proof (induction t)
  case Nil
  then show ?case by simp
next
  case (Cons c cs)
  show ?case
  proof (cases "match_fence_at (c # cs)")
    case None
    with Cons.prems have "ACTION_FENCE_search cs = Some b" by simp
    from Cons.IH [OF this] obtain pre opener w1 w2 rest where
      eq: "cs = pre @ opener @ w1 @ b @ w2 @ ''```'' @ rest"
      and op: "map ascii_lower opener = ''```action''"
      and w: "\<forall>c\<in>set w1. isspace c" "\<forall>c\<in>set w2. isspace c"
      by (elim exE conjE) (rule that, assumption+)
    from eq have eq': "c # cs = (c # pre) @ opener @ w1 @ b @ w2 @ ''```'' @ rest" by simp
    show ?thesis
      by (rule exI [of _ "c # pre"], rule exI [of _ opener], rule exI [of _ w1], rule exI [of _ w2],
          rule exI [of _ rest]) (intro conjI eq' op w)
  next
    case (Some b')
    with Cons.prems have "match_fence_at (c # cs) = Some b" by simp
    from match_fence_at_sound [OF this] obtain opener w1 w2 rest where
      eq: "c # cs = opener @ w1 @ b @ w2 @ ''```'' @ rest"
      and op: "map ascii_lower opener = ''```action''"
      and w: "\<forall>c\<in>set w1. isspace c" "\<forall>c\<in>set w2. isspace c"
      by (elim exE conjE) (rule that, assumption+)
    from eq have eq': "c # cs = [] @ opener @ w1 @ b @ w2 @ ''```'' @ rest" by simp
    show ?thesis
      by (rule exI [of _ "[]"], rule exI [of _ opener], rule exI [of _ w1], rule exI [of _ w2],
          rule exI [of _ rest]) (intro conjI eq' op w)
  qed
qed

lemma match_literal_ci_marker:
  assumes "map ascii_lower opener = ''```action''"
  shows "match_literal_ci ''```action'' (opener @ r) = Some r"
proof -
  have len: "length opener = length ''```action''"
    using assms by (metis length_map)
  have "\<exists>m. opener @ r = m @ r \<and> length m = length ''```action''
      \<and> map ascii_lower m = map ascii_lower ''```action''"
    by (rule exI [of _ opener]) (simp only: len assms marker_lower simp_thms)
  then show ?thesis by (simp only: match_literal_ci_Some)
qed

lemma match_fence_at_complete:
  assumes "map ascii_lower opener = ''```action''"
  shows "match_fence_at (opener @ body @ ''```'' @ post) \<noteq> None"
proof -
  have "sublist ''```'' (dropWhile isspace (body @ ''```'' @ post))"
    by (rule sublist_fence_dropWhile) (rule sublist_appendI)
  then have "lazy_body (dropWhile isspace (body @ ''```'' @ post)) \<noteq> None"
    by (rule lazy_body_complete)
  then show ?thesis
    by (simp only: match_fence_at_def match_literal_ci_marker [OF assms] option.case simp_thms)
qed

lemma search_complete:
  assumes "map ascii_lower opener = ''```action''"
  shows "ACTION_FENCE_search (pre @ opener @ body @ ''```'' @ post) \<noteq> None"
proof (induction pre)
  case Nil
  have "opener \<noteq> []"
  proof
    assume "opener = []"
    with assms show False by simp
  qed
  then obtain c cs where oc: "opener = c # cs" by (cases opener) simp_all
  from match_fence_at_complete [OF assms, of body post] obtain b where
    "match_fence_at (opener @ body @ ''```'' @ post) = Some b" by auto
  then have "ACTION_FENCE_search (opener @ body @ ''```'' @ post) = Some b"
    unfolding oc by simp
  then show ?case by simp
next
  case (Cons p ps)
  show ?case
  proof (cases "match_fence_at (p # ps @ opener @ body @ ''```'' @ post)")
    case None
    with Cons show ?thesis by simp
  next
    case (Some b)
    then show ?thesis by simp
  qed
qed

lemma has_action_fence_iff: "has_action_fence t \<longleftrightarrow> ACTION_FENCE_search t \<noteq> None"
proof
  assume "has_action_fence t"
  then obtain pre opener body post where t: "t = pre @ opener @ body @ ''```'' @ post"
    and op: "map ascii_lower opener = ''```action''"
    unfolding has_action_fence_def by (elim exE conjE) (rule that, assumption+)
  from search_complete [OF op, of pre body post] show "ACTION_FENCE_search t \<noteq> None"
    unfolding t .
next
  assume "ACTION_FENCE_search t \<noteq> None"
  then obtain b where "ACTION_FENCE_search t = Some b" by auto
  from search_sound [OF this] obtain pre opener w1 w2 rest where
    eq: "t = pre @ opener @ w1 @ b @ w2 @ ''```'' @ rest"
    and op: "map ascii_lower opener = ''```action''"
    by (elim exE conjE) (rule that, assumption+)
  from eq have eq': "t = pre @ opener @ (w1 @ b @ w2) @ ''```'' @ rest" by simp
  show "has_action_fence t"
    unfolding has_action_fence_def
    by (rule exI [of _ pre], rule exI [of _ opener], rule exI [of _ "w1 @ b @ w2"], rule exI [of _ rest])
       (intro conjI eq' op)
qed

lemma validate_raises_only_ActionParseError:
  "validate_action_obj obj = Inl e \<Longrightarrow> exn_type e = ''ActionParseError''"
  by (auto simp: validate_action_obj_def ActionParseError_def split: pyval.splits if_splits)

lemma extract_raises_only_ActionParseError:
  "extract_action_block t = Inl e \<Longrightarrow> exn_type e = ''ActionParseError''"
  by (auto simp: extract_action_block_def ActionParseError_def split: option.splits if_splits)

text \<open>
  What \<^verbatim>\<open>safe_parse_action\<close> returns is an action with no message or no action with a
  message.
\<close>

lemma safe_parse_action_returned:
  "safe_parse_action B t = Inr (act, err) \<Longrightarrow>
     (\<exists>a. act = Some a \<and> err = None) \<or> (\<exists>m. act = None \<and> err = Some m)"
  by (auto simp: safe_parse_action_def split: sum.splits if_splits)

text \<open>
  An exception leaves \<^verbatim>\<open>safe_parse_action\<close> exactly when \<^verbatim>\<open>json.loads\<close> raised it on the
  body of the block and it is neither a \<^verbatim>\<open>JSONDecodeError\<close> nor an \<^verbatim>\<open>ActionParseError\<close>.
\<close>

lemma safe_parse_action_raises:
  "safe_parse_action B t = Inl e \<longleftrightarrow>
     (\<exists>body. extract_action_block t = Inr body \<and> json_loads B body = Inl e
        \<and> exn_type e \<noteq> ''JSONDecodeError'' \<and> exn_type e \<noteq> ''ActionParseError'')"
proof (cases "extract_action_block t")
  case (Inl x)
  from extract_raises_only_ActionParseError [OF this] Inl show ?thesis
    by (simp add: safe_parse_action_def parse_action_def)
next
  case (Inr body)
  show ?thesis
  proof (cases "json_loads B body")
    case (Inl x)
    with Inr show ?thesis
      by (auto simp: safe_parse_action_def parse_action_def parse_action_json_def ActionParseError_def)
  next
    case inr: (Inr v)
    show ?thesis
    proof (cases "parse_action_json B body")
      case (Inl x)
      with inr have "exn_type x = ''ActionParseError''"
        by (auto simp: parse_action_json_def ActionParseError_def split: pyval.splits)
      with Inl Inr inr show ?thesis
        by (simp add: safe_parse_action_def parse_action_def)
    next
      case pj: (Inr obj)
      show ?thesis
      proof (cases "validate_action_obj obj")
        case (Inl x)
        from validate_raises_only_ActionParseError [OF this] Inl Inr inr pj show ?thesis
          by (simp add: safe_parse_action_def parse_action_def)
      next
        case (Inr a)
        with \<open>extract_action_block t = Inr body\<close> inr pj show ?thesis
          by (simp add: safe_parse_action_def parse_action_def)
      qed
    qed
  qed
qed

text \<open>
  An action that \<^verbatim>\<open>safe_parse_action\<close> returns is a validated one: the body of the block
  decoded to an object, the object's \<^verbatim>\<open>tool_name\<close> is a text that is not blank, the action
  holds it stripped, and the action's arguments are the object's \<^verbatim>\<open>args\<close> (the empty
  dictionary when \<^verbatim>\<open>args\<close> is missing or \<^verbatim>\<open>null\<close>).
\<close>

lemma safe_parse_action_validated:
  assumes "safe_parse_action B t = Inr (Some a, err)"
  shows "\<exists>body obj tn. extract_action_block t = Inr body \<and> json_loads B body = Inr (PyDict obj)
           \<and> dict_get obj ''tool_name'' PyNone = PyStr tn \<and> strip tn \<noteq> [] \<and> tool_name a = strip tn
           \<and> (dict_get obj ''args'' PyNone = PyDict (args a)
               \<or> dict_get obj ''args'' PyNone = PyNone \<and> args a = [])"
proof -
  from assms obtain body where b: "extract_action_block t = Inr body"
    by (cases "extract_action_block t")
       (auto simp: safe_parse_action_def parse_action_def split: if_splits)
  with assms obtain obj where o: "parse_action_json B body = Inr obj"
    by (cases "parse_action_json B body")
       (auto simp: safe_parse_action_def parse_action_def split: if_splits)
  then have j: "json_loads B body = Inr (PyDict obj)"
    by (auto simp: parse_action_json_def split: sum.splits pyval.splits if_splits)
  from assms b o have v: "validate_action_obj obj = Inr a"
    by (cases "validate_action_obj obj")
       (auto simp: safe_parse_action_def parse_action_def split: if_splits)
  then obtain tn where tn: "dict_get obj ''tool_name'' PyNone = PyStr tn"
    by (cases "dict_get obj ''tool_name'' PyNone") (simp_all add: validate_action_obj_def)
  from v tn have "strip tn \<noteq> [] \<and> tool_name a = strip tn
           \<and> (dict_get obj ''args'' PyNone = PyDict (args a)
               \<or> dict_get obj ''args'' PyNone = PyNone \<and> args a = [])"
    by (cases "dict_get obj ''args'' PyNone")
       (auto simp: validate_action_obj_def split: if_splits)
  with b j tn show ?thesis by blast
qed

lemma extract_blank:
  "\<forall>c\<in>set t. isspace c \<Longrightarrow>
     extract_action_block t = Inl (ActionParseError ''Empty model response; expected an ```action``` block.'')"
  by (simp add: extract_action_block_def strip_eq_Nil)

lemma ex_ActionParseError: "\<exists>m. ActionParseError x = ActionParseError m"
  by (rule exI, rule refl)

lemma extract_no_fence:
  assumes "\<not> has_action_fence t"
  shows "\<exists>m. extract_action_block t = Inl (ActionParseError m)"
proof -
  from assms have "ACTION_FENCE_search t = None"
    by (simp only: has_action_fence_iff simp_thms)
  then show ?thesis
    by (cases "strip t = []") (simp_all add: extract_action_block_def ex_ActionParseError)
qed

text \<open>
  A text made of white space only (the empty text included) and a text with no fenced
  block of the action type give a failure, whatever \<^verbatim>\<open>json.loads\<close> does: it is not called.
\<close>

lemma safe_parse_action_blank:
  assumes "\<forall>c\<in>set t. isspace c"
  shows "safe_parse_action B t = Inr (None, Some ''Empty model response; expected an ```action``` block.'')"
  using extract_blank [OF assms]
  by (simp add: safe_parse_action_def parse_action_def ActionParseError_def)

lemma safe_parse_action_no_fence:
  assumes "\<not> has_action_fence t"
  shows "\<exists>m. safe_parse_action B t = Inr (None, Some m)"
proof -
  from extract_no_fence [OF assms] obtain m where "extract_action_block t = Inl (ActionParseError m)"
    by (elim exE)
  then show ?thesis
    by (simp add: safe_parse_action_def parse_action_def ActionParseError_def)
qed

lemma no_fence_example: "\<not> has_action_fence ''no action here''"
  unfolding has_action_fence_iff by code_simp

section \<open>The first fenced block\<close>

lemma sublist_map_mono:
  assumes "sublist xs ys"
  shows "sublist (map f xs) (map f ys)"
proof -
  from assms obtain ps ss where "ys = ps @ xs @ ss"
    unfolding sublist_def by blast
  then have "map f ys = map f ps @ map f xs @ map f ss" by simp
  then show ?thesis unfolding sublist_def by blast
qed

lemma prefix3_shorten:
  "d \<noteq> [] \<Longrightarrow> prefix [a, b, c] (d @ [a', b', c'] @ rest) \<Longrightarrow> prefix [a, b, c] (d @ [a', b'])"
proof (cases d)
  case Nil
  assume "d \<noteq> []"
  with Nil show ?thesis by simp
next
  case (Cons y ys)
  assume pr: "prefix [a, b, c] (d @ [a', b', c'] @ rest)"
  show ?thesis
  proof (cases ys)
    case Nil
    with Cons pr show ?thesis by simp
  next
    case (Cons z zs)
    note ys = this
    show ?thesis
    proof (cases zs)
      case Nil
      with ys \<open>d = y # ys\<close> pr show ?thesis by simp
    next
      case (Cons u us)
      with ys \<open>d = y # ys\<close> pr show ?thesis by simp
    qed
  qed
qed

lemma sublist_snoc_append:
  assumes sub: "sublist (xs @ [x]) (X @ Y)" and notin: "x \<notin> set Y"
  shows "sublist (xs @ [x]) X"
proof -
  from sub obtain ps ss where "X @ Y = (ps @ xs @ [x]) @ ss"
    unfolding sublist_def by auto
  then consider us where "X = (ps @ xs @ [x]) @ us"
    | us where "X @ us = ps @ xs @ [x]" "Y = us @ ss"
    unfolding append_eq_append_conv2 by blast
  then show ?thesis
  proof cases
    case 1
    then show ?thesis unfolding sublist_def by auto
  next
    case 2
    show ?thesis
    proof (cases "us = []")
      case True
      with 2 have "X = ps @ (xs @ [x]) @ []" by simp
      then show ?thesis unfolding sublist_def by blast
    next
      case False
      then have "last (X @ us) = last us" by simp
      with 2(1) have "last us = x" by simp
      with False have "x \<in> set us" using last_in_set by blast
      with 2(2) notin show ?thesis by simp
    qed
  qed
qed

lemma marker_not_early:
  assumes nsub: "\<not> sublist ''```action'' (map ascii_lower (p # ps))"
    and op: "map ascii_lower opener = ''```action''"
  shows "match_literal_ci ''```action'' ((p # ps) @ opener @ tail) = None"
proof (rule ccontr)
  assume "match_literal_ci ''```action'' ((p # ps) @ opener @ tail) \<noteq> None"
  then obtain r where "match_literal_ci ''```action'' ((p # ps) @ opener @ tail) = Some r"
    by auto
  then have "\<exists>m. (p # ps) @ opener @ tail = m @ r \<and> length m = length ''```action''
      \<and> map ascii_lower m = map ascii_lower ''```action''"
    by (simp only: match_literal_ci_Some)
  then obtain m where m: "(p # ps) @ opener @ tail = m @ r" and lm: "length m = length ''```action''"
    and um: "map ascii_lower m = map ascii_lower ''```action''"
    by (elim exE conjE) (rule that, assumption+)
  have lo: "length opener = 9"
    using arg_cong [OF op, of length] by simp
  have lm9: "length m = 9" using lm by simp
  have e: "m @ r = ((p # ps) @ take 8 opener) @ (drop 8 opener @ tail)"
    unfolding m [symmetric] by (metis append_assoc append_take_drop_id)
  have "m = take 9 (m @ r)" using lm9 by simp
  also have "\<dots> = take 9 (((p # ps) @ take 8 opener) @ (drop 8 opener @ tail))"
    by (simp only: e)
  also have "\<dots> = take 9 ((p # ps) @ take 8 opener)"
    using lo by simp
  finally have "prefix m ((p # ps) @ take 8 opener)"
    using take_is_prefix by metis
  then have "sublist m ((p # ps) @ take 8 opener)" by (rule prefix_imp_sublist)
  then have "sublist (map ascii_lower m) (map ascii_lower ((p # ps) @ take 8 opener))"
    by (rule sublist_map_mono)
  moreover have "map ascii_lower (take 8 opener) = ''```actio''"
    unfolding take_map [symmetric] op by simp
  ultimately have "sublist (''```actio'' @ [CHR ''n'']) (map ascii_lower (p # ps) @ ''```actio'')"
    unfolding um marker_lower by simp
  then have "sublist (''```actio'' @ [CHR ''n'']) (map ascii_lower (p # ps))"
    by (rule sublist_snoc_append) simp
  with nsub show False by simp
qed

lemma search_skip_prefix:
  assumes op: "map ascii_lower opener = ''```action''"
  shows "\<not> sublist ''```action'' (map ascii_lower pre)
     \<Longrightarrow> ACTION_FENCE_search (pre @ opener @ tail) = ACTION_FENCE_search (opener @ tail)"
proof (induction pre)
  case Nil
  show ?case by simp
next
  case (Cons p ps)
  from Cons.prems have "\<not> sublist ''```action'' (map ascii_lower ps)"
    by (metis list.simps(9) sublist_Cons_right)
  with Cons.IH have ih: "ACTION_FENCE_search (ps @ opener @ tail) = ACTION_FENCE_search (opener @ tail)"
    by simp
  from marker_not_early [OF Cons.prems op, of tail]
  have "match_fence_at ((p # ps) @ opener @ tail) = None"
    by (simp only: match_fence_at_def option.case)
  with ih show ?case by simp
qed

lemma closing_fence_not_in_suffix:
  assumes "\<not> sublist ''```'' (c @ ''``'')" and "suffix d c"
  shows "\<not> sublist ''```'' (d @ ''``'')"
proof
  assume s: "sublist ''```'' (d @ ''``'')"
  from assms(2) obtain e where "c = e @ d" unfolding suffix_def by blast
  then have "suffix (d @ ''``'') (c @ ''``'')" unfolding suffix_def by simp
  with s have "sublist ''```'' (c @ ''``'')"
    using sublist_order.order_trans suffix_imp_sublist by blast
  with assms(1) show False by simp
qed

lemma lazy_body_first:
  "\<not> sublist ''```'' (c @ ''``'') \<Longrightarrow> lazy_body (c @ ''```'' @ rest) = Some (rstrip c)"
proof (induction c)
  case Nil
  show ?case by (simp add: rstrip_def)
next
  case (Cons x xs)
  have ih: "lazy_body (xs @ ''```'' @ rest) = Some (rstrip xs)"
    using Cons.IH closing_fence_not_in_suffix [OF Cons.prems, of xs] by (simp add: suffix_Cons)
  show ?case
  proof (cases "\<forall>c\<in>set (x # xs). isspace c")
    case True
    then have "dropWhile isspace ((x # xs) @ ''```'' @ rest) = ''```'' @ rest"
      by (simp add: dropWhile_append)
    then have "prefix ''```'' (dropWhile isspace ((x # xs) @ ''```'' @ rest))"
      by simp
    then show ?thesis using True by (simp add: rstrip_Cons)
  next
    case False
    define d where "d = dropWhile isspace (x # xs)"
    from False have dne: "d \<noteq> []" unfolding d_def by (simp add: dropWhile_eq_Nil_conv)
    have dd: "dropWhile isspace ((x # xs) @ ''```'' @ rest) = d @ ''```'' @ rest"
      unfolding d_def using False by (simp only: dropWhile_append split: if_splits) simp
    have suf: "suffix d (x # xs)" unfolding d_def by (rule suffix_dropWhile)
    have "\<not> prefix ''```'' (d @ ''```'' @ rest)"
    proof
      assume pr: "prefix ''```'' (d @ ''```'' @ rest)"
      from prefix3_shorten [OF dne pr] have "prefix ''```'' (d @ ''``'')" .
      then have "sublist ''```'' (d @ ''``'')" by (rule prefix_imp_sublist)
      with closing_fence_not_in_suffix [OF Cons.prems suf] show False by simp
    qed
    then have "\<not> prefix ''```'' (dropWhile isspace ((x # xs) @ ''```'' @ rest))"
      unfolding dd .
    then have "lazy_body ((x # xs) @ ''```'' @ rest) = map_option ((#) x) (lazy_body (xs @ ''```'' @ rest))"
      by simp
    with ih False show ?thesis by (simp add: rstrip_Cons)
  qed
qed

lemma search_first_block:
  assumes op: "map ascii_lower opener = ''```action''"
    and first: "\<not> sublist ''```action'' (map ascii_lower pre)"
    and closed: "\<not> sublist ''```'' (content @ ''``'')"
  shows "ACTION_FENCE_search (pre @ opener @ content @ ''```'' @ rest) = Some (strip content)"
proof -
  have "opener \<noteq> []"
  proof
    assume "opener = []"
    with op show False by simp
  qed
  then obtain c cs where oc: "opener = c # cs" by (cases opener) simp_all
  have dw: "dropWhile isspace (content @ ''```'' @ rest) = lstrip content @ ''```'' @ rest"
    by (simp add: dropWhile_append lstrip_def)
  have "suffix (lstrip content) content"
    unfolding lstrip_def by (rule suffix_dropWhile)
  from closing_fence_not_in_suffix [OF closed this]
  have "lazy_body (lstrip content @ ''```'' @ rest) = Some (rstrip (lstrip content))"
    by (rule lazy_body_first)
  then have "match_fence_at (opener @ content @ ''```'' @ rest) = Some (strip content)"
    by (simp only: match_fence_at_def match_literal_ci_marker [OF op] option.case dw strip_def)
  then have "ACTION_FENCE_search (opener @ content @ ''```'' @ rest) = Some (strip content)"
    unfolding oc by simp
  with search_skip_prefix [OF op first, of "content @ ''```'' @ rest"] show ?thesis
    by simp
qed

lemma extract_first_block:
  assumes op: "map ascii_lower opener = ''```action''"
    and first: "\<not> sublist ''```action'' (map ascii_lower pre)"
    and closed: "\<not> sublist ''```'' (content @ ''``'')"
  shows "extract_action_block (pre @ opener @ content @ ''```'' @ rest) =
           (if strip content = [] then Inl (ActionParseError ''Found ```action``` block but it was empty.'')
            else Inr (strip content))"
proof -
  have "CHR 0x60 \<in> set (pre @ opener @ content @ ''```'' @ rest)" by simp
  then have "\<not> (\<forall>c\<in>set (pre @ opener @ content @ ''```'' @ rest). isspace c)"
    using backtick_not_space by blast
  then have ne: "strip (pre @ opener @ content @ ''```'' @ rest) \<noteq> []"
    by (simp only: strip_eq_Nil simp_thms)
  show ?thesis
    unfolding extract_action_block_def search_first_block [OF op first closed]
    using ne by (simp add: strip_strip)
qed

lemma backtick_free_closed:
  assumes "CHR 0x60 \<notin> set c"
  shows "\<not> sublist ''```'' (c @ ''``'')"
proof
  assume "sublist ''```'' (c @ ''``'')"
  then obtain ps ss where eq: "c @ ''``'' = ps @ ''```'' @ ss"
    unfolding sublist_def by blast
  from arg_cong [OF eq, of length] have lt: "length ps < length c"
    by simp
  from arg_cong [OF eq, of "\<lambda>xs. xs ! length ps"] have "(c @ ''``'') ! length ps = CHR 0x60"
    by simp
  with lt have "c ! length ps = CHR 0x60"
    by (simp add: nth_append)
  with lt have "CHR 0x60 \<in> set c"
    using nth_mem by metis
  with assms show False by simp
qed

lemma strip_between_newlines:
  assumes "\<not> isspace c"
  shows "strip (''\<newline>'' @ replicate (Suc n) c @ ''\<newline>'') = replicate (Suc n) c"
proof -
  have nl: "isspace (CHR ''\<newline>'')"
    by (simp add: isspace_def)
  have l: "lstrip (''\<newline>'' @ replicate (Suc n) c @ ''\<newline>'') = replicate (Suc n) c @ ''\<newline>''"
    using assms nl by (simp add: lstrip_def)
  have "rev (replicate (Suc n) c @ ''\<newline>'') = CHR ''\<newline>'' # replicate (Suc n) c"
    by (simp only: rev_append rev_replicate rev.simps append.simps)
  then have "rstrip (replicate (Suc n) c @ ''\<newline>'') = rev (replicate (Suc n) c)"
    using assms nl by (simp add: rstrip_def)
  then show ?thesis
    unfolding strip_def l by (simp add: replicate_append_same)
qed

lemma strip_deep_array: "strip (''\<newline>'' @ deep_array @ ''\<newline>'') = deep_array"
proof -
  have "\<not> isspace (CHR ''['')"
    by (simp add: isspace_def)
  from strip_between_newlines [OF this, of 999] show ?thesis
    by (simp add: deep_array_def)
qed

lemma deep_array_not_empty: "deep_array \<noteq> []"
  by (simp add: deep_array_def)

lemma extract_deep_array: "extract_action_block deep_reply = Inr deep_array"
proof -
  have first: "\<not> sublist ''```action'' (map ascii_lower [])"
    by simp
  have "CHR 0x60 \<notin> set (''\<newline>'' @ deep_array @ ''\<newline>'')"
    by (simp add: deep_array_def)
  then have closed: "\<not> sublist ''```'' ((''\<newline>'' @ deep_array @ ''\<newline>'') @ ''``'')"
    by (rule backtick_free_closed)
  from extract_first_block [OF marker_lower first closed, of "[]"]
  have "extract_action_block ([] @ ''```action'' @ (''\<newline>'' @ deep_array @ ''\<newline>'') @ ''```'' @ []) =
      Inr deep_array"
    by (simp only: strip_deep_array deep_array_not_empty if_False)
  then show ?thesis by (simp add: deep_reply_def)
qed

lemma parse_deep_array:
  "safe_parse_action nested_builtins deep_reply =
     Inl (Exn ''RecursionError''
            ''maximum recursion depth exceeded while decoding a JSON array from a unicode string'')"
  by (simp add: safe_parse_action_def parse_action_def extract_deep_array parse_action_json_def
        nested_builtins_def nested_json_loads_def)

text \<open>
  C7. The claim does not hold of the code: \<^verbatim>\<open>safe_parse_action\<close> catches
  \<^verbatim>\<open>ActionParseError\<close> only and \<^verbatim>\<open>parse_action_json\<close> catches \<^verbatim>\<open>JSONDecodeError\<close> only. For
  a text whose action block holds a thousand opening brackets the block is extracted,
  \<^verbatim>\<open>json.loads\<close> raises \<^verbatim>\<open>RecursionError\<close> on it, and that exception leaves
  \<^verbatim>\<open>safe_parse_action\<close>: neither an action nor a failure message is returned.
\<close>

theorem deep_nesting_escapes_safe_parse_action:
  "extract_action_block (''```action\<newline>'' @ replicate 1000 (CHR ''['') @ ''\<newline>```'')
     = Inr (replicate 1000 (CHR ''[''))
   \<and> json_loads nested_builtins (replicate 1000 (CHR ''['')) =
       Inl (Exn ''RecursionError''
              ''maximum recursion depth exceeded while decoding a JSON array from a unicode string'')
   \<and> safe_parse_action nested_builtins (''```action\<newline>'' @ replicate 1000 (CHR ''['') @ ''\<newline>```'') =
       Inl (Exn ''RecursionError''
              ''maximum recursion depth exceeded while decoding a JSON array from a unicode string'')"
proof (intro conjI)
  show "extract_action_block (''```action\<newline>'' @ replicate 1000 (CHR ''['') @ ''\<newline>```'')
     = Inr (replicate 1000 (CHR ''[''))"
    using extract_deep_array by (simp only: deep_reply_def deep_array_def)
  show "json_loads nested_builtins (replicate 1000 (CHR ''['')) =
       Inl (Exn ''RecursionError''
              ''maximum recursion depth exceeded while decoding a JSON array from a unicode string'')"
    by (simp add: nested_builtins_def nested_json_loads_def deep_array_def)
  show "safe_parse_action nested_builtins (''```action\<newline>'' @ replicate 1000 (CHR ''['') @ ''\<newline>```'') =
       Inl (Exn ''RecursionError''
              ''maximum recursion depth exceeded while decoding a JSON array from a unicode string'')"
    using parse_deep_array by (simp only: deep_reply_def deep_array_def)
qed



section \<open>Passes of the loop\<close>

lemma run_passes_Continue:
  "st_iteration st < max_iterations cfg \<Longrightarrow> loop_body B cfg E sp st = Continue st'
     \<Longrightarrow> run_passes B cfg E sp st = st # run_passes B cfg E sp st'"
  by (subst run_passes.simps) simp

lemma run_passes_Return:
  "st_iteration st < max_iterations cfg \<Longrightarrow> loop_body B cfg E sp st = Return r
     \<Longrightarrow> run_passes B cfg E sp st = [st]"
  by (subst run_passes.simps) simp

lemma run_passes_Raise:
  "st_iteration st < max_iterations cfg \<Longrightarrow> loop_body B cfg E sp st = Raise e
     \<Longrightarrow> run_passes B cfg E sp st = [st]"
  by (subst run_passes.simps) simp



lemma loop_body_generator_raises:
  "llm_generate E (st_iteration st) (build_prompt B (snapshot_of sp st)) = Inl e
     \<Longrightarrow> loop_body B cfg E sp st = Raise e"
  by (simp add: loop_body_def)

lemma loop_body_parser_raises:
  "llm_generate E (st_iteration st) (build_prompt B (snapshot_of sp st)) = Inr t
     \<Longrightarrow> safe_parse_action B t = Inl e
     \<Longrightarrow> loop_body B cfg E sp st = Raise e"
  by (simp add: loop_body_def)

lemma loop_body_parse_failure:
  "llm_generate E (st_iteration st) (build_prompt B (snapshot_of sp st)) = Inr t
     \<Longrightarrow> safe_parse_action B t = Inr (None, err)
     \<Longrightarrow> loop_body B cfg E sp st = parse_failure cfg st err"
  by (simp add: loop_body_def)

lemma loop_body_dispatch:
  "llm_generate E (st_iteration st) (build_prompt B (snapshot_of sp st)) = Inr t
     \<Longrightarrow> safe_parse_action B t = Inr (Some a, err)
     \<Longrightarrow> loop_body B cfg E sp st =
         (case dispatch cfg E (st_iteration st) (tool_name a) (args a) sp
                 (st_code st) (st_tests st) (st_last_checks st) of
            Inl e \<Rightarrow> tool_exception cfg st (tool_name a) e
          | Inr result \<Rightarrow> apply_result B cfg st (tool_name a) result)"
  by (simp add: loop_body_def)

lemma apply_result_Raise: "apply_result B cfg st tool result = Raise e \<Longrightarrow> \<exists>k. e = KeyError k"
  by (auto simp: apply_result_def Let_def split: if_splits option.splits)

text \<open>
  An exception leaves a pass in three ways: the generator raised it; \<^verbatim>\<open>safe_parse_action\<close>
  let it through; or the dictionary that the dispatch returned lacks the key \<^verbatim>\<open>run\<close> reads.
\<close>

lemma loop_body_Raise_cases:
  assumes "loop_body B cfg E sp st = Raise e"
  shows "llm_generate E (st_iteration st) (build_prompt B (snapshot_of sp st)) = Inl e
       \<or> (\<exists>t. llm_generate E (st_iteration st) (build_prompt B (snapshot_of sp st)) = Inr t
              \<and> safe_parse_action B t = Inl e)
       \<or> (\<exists>t a err result k.
              llm_generate E (st_iteration st) (build_prompt B (snapshot_of sp st)) = Inr t
              \<and> safe_parse_action B t = Inr (Some a, err)
              \<and> dispatch cfg E (st_iteration st) (tool_name a) (args a) sp
                    (st_code st) (st_tests st) (st_last_checks st) = Inr result
              \<and> e = KeyError k)"
proof (cases "llm_generate E (st_iteration st) (build_prompt B (snapshot_of sp st))")
  case (Inl e')
  with assms show ?thesis by (simp add: loop_body_def)
next
  case gen: (Inr t)
  show ?thesis
  proof (cases "safe_parse_action B t")
    case (Inl e')
    with gen assms show ?thesis by (simp add: loop_body_def)
  next
    case (Inr p)
    obtain act err where p: "p = (act, err)" by (cases p)
    show ?thesis
    proof (cases act)
      case None
      with gen Inr p assms show ?thesis
        by (simp add: loop_body_def parse_failure_def Let_def split: if_splits)
    next
      case (Some a)
      with gen Inr p have sp: "safe_parse_action B t = Inr (Some a, err)" by simp
      from loop_body_dispatch [OF gen sp] have lb: "loop_body B cfg E sp st =
         (case dispatch cfg E (st_iteration st) (tool_name a) (args a) sp
                 (st_code st) (st_tests st) (st_last_checks st) of
            Inl e \<Rightarrow> tool_exception cfg st (tool_name a) e
          | Inr result \<Rightarrow> apply_result B cfg st (tool_name a) result)" .
      show ?thesis
      proof (cases "dispatch cfg E (st_iteration st) (tool_name a) (args a) sp
                 (st_code st) (st_tests st) (st_last_checks st)")
        case (Inl x)
        with lb assms show ?thesis
          by (simp add: tool_exception_def Let_def split: if_splits)
      next
        case res: (Inr result)
        with lb assms have "apply_result B cfg st (tool_name a) result = Raise e" by simp
        from apply_result_Raise [OF this] obtain k where "e = KeyError k" by blast
        with gen sp res show ?thesis by blast
      qed
    qed
  qed
qed

text \<open>An exception leaves the loop in the pass that raised it.\<close>

lemma run_loop_raises_in_a_pass:
  "run_loop B cfg E sp st = Inl e \<Longrightarrow>
     \<exists>s\<in>set (run_passes B cfg E sp st). loop_body B cfg E sp s = Raise e"
proof (induction B cfg E sp st rule: run_loop.induct)
  case (1 B cfg E sp st)
  show ?case
  proof (cases "st_iteration st < max_iterations cfg")
    case False
    with "1.prems" show ?thesis by (simp add: run_loop_exceeded)
  next
    case True
    show ?thesis
    proof (cases "loop_body B cfg E sp st")
      case (Continue st')
      from "1.prems" have "run_loop B cfg E sp st' = Inl e"
        by (simp add: run_loop_Continue [OF True Continue])
      from "1.IH" [OF True Continue this] show ?thesis
        by (simp add: run_passes_Continue [OF True Continue])
    next
      case (Return r)
      with "1.prems" True show ?thesis by (simp add: run_loop_Return [OF True Return])
    next
      case (Raise e')
      with "1.prems" True have "e' = e" by (simp add: run_loop_Raise [OF True Raise])
      with Raise show ?thesis
        by (simp add: run_passes_Raise [OF True Raise])
    qed
  qed
qed

text \<open>The third way is open: a verify tool whose dictionary has no \<^verbatim>\<open>ok\<close> makes \<^verbatim>\<open>run\<close> raise \<^verbatim>\<open>KeyError\<close>.\<close>

lemma missing_key_leaves_run:
  "run example_builtins default_config llm_keyless [] = Inl (KeyError ''ok'')"
proof -
  have "loop_body example_builtins default_config llm_keyless [] initial_state = Raise (KeyError ''ok'')"
    by (simp add: loop_body_def llm_keyless_def scripted_def parse_run_checks_example dispatch_def
          apply_result_def empty_result_def)
  moreover have "st_iteration initial_state < max_iterations default_config"
    by (simp add: initial_state_def default_config_def)
  ultimately show ?thesis
    unfolding run_def by (rule run_loop_Raise [rotated])
qed

text \<open>
  An unrecognized tool name never reaches the last branch of the chain in \<^verbatim>\<open>run\<close>:
  \<^verbatim>\<open>_dispatch\<close> raises \<^verbatim>\<open>ValueError\<close> first, and the pass goes through the handler that
  also serves a collaborator that raised.
\<close>

lemma unknown_tool_is_tool_exception:
  assumes "llm_generate E (st_iteration st) (build_prompt B (snapshot_of sp st)) = Inr t"
    and "safe_parse_action B t = Inr (Some a, err)"
    and "tool_name a \<notin> {''write_code'', ''write_docs'', ''write_tests'', ''run_checks'', ''save_file'', ''terminate''}"
  shows "loop_body B cfg E sp st =
           tool_exception cfg st (tool_name a) (Exn ''ValueError'' (''Unknown tool_name: '' @ tool_name a))"
  using assms by (simp add: loop_body_dispatch dispatch_def)

lemma parse_blank_example:
  "safe_parse_action example_builtins [] =
     Inr (None, Some ''Empty model response; expected an ```action``` block.'')"
  by code_simp

lemma parse_frobnicate_example:
  \<open>safe_parse_action example_builtins ''```action\<newline>{"tool_name":"frobnicate","args":{}}\<newline>```''
     = Inr (Some \<lparr>tool_name = ''frobnicate'', args = []\<rparr>, None)\<close>
  by code_simp

text \<open>
  C1. The claim does not hold of the code: \<^verbatim>\<open>self.llm.generate(prompt)\<close> is called outside
  any \<^verbatim>\<open>try\<close>, so a generator that raises on the first call makes \<^verbatim>\<open>run\<close> raise that
  exception; no result is returned and nothing is retried.
\<close>

theorem generator_fault_escapes_run:
  "run example_builtins default_config llm_unconfigured [] =
     Inl (Exn ''LLMError'' ''OPENAI_API_KEY is not set in environment.'')"
proof -
  have "loop_body example_builtins default_config llm_unconfigured [] initial_state =
      Raise (Exn ''LLMError'' ''OPENAI_API_KEY is not set in environment.'')"
    by (rule loop_body_generator_raises) (simp add: llm_unconfigured_def scripted_def)
  moreover have "st_iteration initial_state < max_iterations default_config"
    by (simp add: initial_state_def default_config_def)
  ultimately show ?thesis
    unfolding run_def by (rule run_loop_Raise [rotated])
qed

lemma scripted_generate: "llm_generate (scripted reply) i p = reply"
  by (simp add: scripted_def)

lemma frobnicate_pass:
  "loop_body example_builtins cfg llm_frobnicate sp st =
     tool_exception cfg st ''frobnicate'' (Exn ''ValueError'' ''Unknown tool_name: frobnicate'')"
proof -
  have "loop_body example_builtins cfg llm_frobnicate sp st =
     tool_exception cfg st (tool_name \<lparr>tool_name = ''frobnicate'', args = []\<rparr>)
       (Exn ''ValueError'' (''Unknown tool_name: '' @ tool_name \<lparr>tool_name = ''frobnicate'', args = []\<rparr>))"
    by (rule unknown_tool_is_tool_exception [OF _ parse_frobnicate_example])
       (simp_all add: llm_frobnicate_def scripted_generate)
  then show ?thesis by simp
qed

lemma blank_pass:
  "loop_body example_builtins cfg llm_blank sp st =
     parse_failure cfg st (Some ''Empty model response; expected an ```action``` block.'')"
  by (rule loop_body_parse_failure [OF _ parse_blank_example])
     (simp add: llm_blank_def scripted_generate)

text \<open>
  C3. The claim does not hold of the code. For the unrecognized tool name \<open>frobnicate\<close>
  the pass is the \<^verbatim>\<open>except Exception\<close> handler applied to the \<^verbatim>\<open>ValueError\<close> that
  \<^verbatim>\<open>_dispatch\<close> raised: the diagnostic is a \<open>ToolExecutionError\<close>, the same kind a raising
  collaborator gets, and when the retries run out the summary is \<open>Tool execution failed\<close>.
  The branch of \<^verbatim>\<open>run\<close> that would report \<open>Unknown tool_name\<close> on its own is never reached.
\<close>

theorem unknown_tool_reported_as_tool_execution_error:
  \<open>loop_body example_builtins default_config llm_frobnicate [] initial_state =
     tool_exception default_config initial_state ''frobnicate''
       (Exn ''ValueError'' ''Unknown tool_name: frobnicate'')
   \<and> loop_body example_builtins default_config llm_frobnicate [] initial_state =
     Continue (initial_state
       \<lparr>st_last_checks := [''ToolExecutionError in frobnicate: ValueError: Unknown tool_name: frobnicate''],
        st_phase_retries := 1, st_iteration := 1\<rparr>)
   \<and> run example_builtins default_config llm_frobnicate [] =
     Inr \<lparr>ok = False,
           summary = ''Tool execution failed after retries.\<newline>ToolExecutionError in frobnicate: ValueError: Unknown tool_name: frobnicate'',
           file_paths = None, iterations = 3\<rparr>\<close>
  by (simp add: run_def run_loop.simps frobnicate_pass tool_exception_def initial_state_def default_config_def)

section \<open>Runs whose generator text never parses\<close>

lemma parse_fails_pass:
  assumes "parse_fails B E sp s"
  shows "\<exists>m. loop_body B cfg E sp s = parse_failure cfg s (Some m)"
proof -
  from assms obtain t where gen: "llm_generate E (st_iteration s) (build_prompt B (snapshot_of sp s)) = Inr t"
    by (auto simp: parse_fails_def split: sum.splits)
  with assms obtain err where p: "safe_parse_action B t = Inr (None, err)"
    by (auto simp: parse_fails_def split: sum.splits option.splits)
  from safe_parse_action_returned [OF this] obtain m where "err = Some m"
    by auto
  with loop_body_parse_failure [OF gen p] show ?thesis by blast
qed

lemma parse_failures_from:
  assumes "n = nat (max_phase_retries cfg - st_phase_retries st)"
    and "st_phase_retries st \<le> max_phase_retries cfg"
    and "st_iteration st + (max_phase_retries cfg - st_phase_retries st) + 1 \<le> max_iterations cfg"
    and "\<forall>s\<in>set (run_passes B cfg E sp st). parse_fails B E sp s"
  shows "\<exists>r. run_loop B cfg E sp st = Inr r \<and> \<not> ok r
           \<and> iterations r = st_iteration st + (max_phase_retries cfg - st_phase_retries st) + 1
           \<and> length (run_passes B cfg E sp st) = Suc n
           \<and> (\<forall>s\<in>set (run_passes B cfg E sp st). st_phase s = st_phase st)"
  using assms
proof (induction n arbitrary: st)
  case 0
  then have eq: "st_phase_retries st = max_phase_retries cfg" by simp
  from 0 have lt: "st_iteration st < max_iterations cfg" by simp
  have "st \<in> set (run_passes B cfg E sp st)"
    using lt by (subst run_passes.simps) simp
  with 0 have "parse_fails B E sp st" by blast
  from parse_fails_pass [OF this, of cfg] obtain m where
    "loop_body B cfg E sp st = parse_failure cfg st (Some m)" by blast
  with eq have ret: "loop_body B cfg E sp st =
      Return \<lparr>ok = False, summary = ''Failed to parse action after retries. Last error: '' @ m,
              file_paths = None, iterations = st_iteration st + 1\<rparr>"
    by (simp add: parse_failure_def)
  from run_loop_Return [OF lt ret] run_passes_Return [OF lt ret] eq show ?case
    by simp
next
  case (Suc n)
  then have less: "st_phase_retries st < max_phase_retries cfg" by simp
  from Suc have lt: "st_iteration st < max_iterations cfg" by simp
  have "st \<in> set (run_passes B cfg E sp st)"
    using lt by (subst run_passes.simps) simp
  with Suc.prems have "parse_fails B E sp st" by blast
  from parse_fails_pass [OF this, of cfg] obtain m where
    "loop_body B cfg E sp st = parse_failure cfg st (Some m)" by blast
  with less obtain st' where cont: "loop_body B cfg E sp st = Continue st'"
    and st': "st_phase_retries st' = st_phase_retries st + 1" "st_iteration st' = st_iteration st + 1"
      "st_phase st' = st_phase st"
    by (simp add: parse_failure_def)
  note passes = run_passes_Continue [OF lt cont]
  have "\<exists>r. run_loop B cfg E sp st' = Inr r \<and> \<not> ok r
           \<and> iterations r = st_iteration st' + (max_phase_retries cfg - st_phase_retries st') + 1
           \<and> length (run_passes B cfg E sp st') = Suc n
           \<and> (\<forall>s\<in>set (run_passes B cfg E sp st'). st_phase s = st_phase st')"
  proof (rule Suc.IH)
    show "n = nat (max_phase_retries cfg - st_phase_retries st')"
      using Suc.prems(1) st' by simp
    show "st_phase_retries st' \<le> max_phase_retries cfg"
      using less st' by simp
    show "st_iteration st' + (max_phase_retries cfg - st_phase_retries st') + 1 \<le> max_iterations cfg"
      using Suc.prems(3) st' by simp
    show "\<forall>s\<in>set (run_passes B cfg E sp st'). parse_fails B E sp s"
      using Suc.prems(4) passes by simp
  qed
  then obtain r where r: "run_loop B cfg E sp st' = Inr r" "\<not> ok r"
    "iterations r = st_iteration st' + (max_phase_retries cfg - st_phase_retries st') + 1"
    "length (run_passes B cfg E sp st') = Suc n"
    "\<forall>s\<in>set (run_passes B cfg E sp st'). st_phase s = st_phase st'"
    by blast
  from run_loop_Continue [OF lt cont] r st' passes show ?case
    by simp
qed


lemma blank_parse_fails: "parse_fails example_builtins llm_blank sp s"
  by (simp add: parse_fails_def llm_blank_def scripted_generate parse_blank_example)



lemma nested_pass:
  "loop_body nested_builtins cfg llm_nested sp st =
     Raise (Exn ''RecursionError''
              ''maximum recursion depth exceeded while decoding a JSON array from a unicode string'')"
  by (rule loop_body_parser_raises [OF _ parse_deep_array])
     (simp add: llm_nested_def scripted_generate)


lemma nested_parse_does_not_return: "\<not> parse_fails nested_builtins llm_nested sp s"
  by (simp add: parse_fails_def llm_nested_def scripted_generate parse_deep_array)


lemma str_int_2: "str_int 2 = ''2''"
  by code_simp

text \<open>
  C4, as the code has it. A pass in which \<^verbatim>\<open>safe_parse_action\<close> returns a failure for the
  generator's text either returns the failure \<open>Failed to parse action after retries\<close> (when
  the incremented counter exceeds \<^verbatim>\<open>max_phase_retries\<close>) or continues in the same phase with
  the counter incremented by 1 and \<^verbatim>\<open>last_checks\<close> replaced by the single diagnostic
  \<open>ActionParseError: ...\<close>, which the next snapshot carries. When every pass from a state
  with counter 0 is such a failure, the retry budget is not negative and at least
  \<^verbatim>\<open>max_phase_retries + 1\<close> passes are left in the iteration budget, the run returns
  \<^verbatim>\<open>ok = False\<close> after exactly \<^verbatim>\<open>max_phase_retries + 1\<close> passes, all in the same phase.
\<close>

theorem parse_failure_retry_discipline:
  "(parse_fails B E sp s \<longrightarrow>
      (\<exists>m. loop_body B cfg E sp s =
         (if max_phase_retries cfg < st_phase_retries s + 1 then
            Return \<lparr>ok = False, summary = ''Failed to parse action after retries. Last error: '' @ m,
                    file_paths = None, iterations = st_iteration s + 1\<rparr>
          else Continue (s\<lparr>st_last_checks := [''ActionParseError: '' @ m],
                            st_phase_retries := st_phase_retries s + 1,
                            st_iteration := st_iteration s + 1\<rparr>))))
   \<and> last_checks (snapshot_of sp (s\<lparr>st_last_checks := [d], st_phase_retries := k, st_iteration := i\<rparr>)) = Some [d]
   \<and> phase (snapshot_of sp (s\<lparr>st_last_checks := [d], st_phase_retries := k, st_iteration := i\<rparr>)) = st_phase s
   \<and> ((\<forall>x\<in>set (run_passes B cfg E sp st). parse_fails B E sp x)
        \<and> st_phase_retries st = 0 \<and> 0 \<le> max_phase_retries cfg
        \<and> st_iteration st + max_phase_retries cfg + 1 \<le> max_iterations cfg \<longrightarrow>
      (\<exists>r. run_loop B cfg E sp st = Inr r \<and> \<not> ok r
         \<and> iterations r = st_iteration st + max_phase_retries cfg + 1
         \<and> length (run_passes B cfg E sp st) = nat (max_phase_retries cfg + 1)
         \<and> (\<forall>x\<in>set (run_passes B cfg E sp st). st_phase x = st_phase st)))"
proof (intro conjI impI)
  assume "parse_fails B E sp s"
  from parse_fails_pass [OF this, of cfg] obtain m where
    "loop_body B cfg E sp s = parse_failure cfg s (Some m)" by blast
  then have "loop_body B cfg E sp s =
         (if max_phase_retries cfg < st_phase_retries s + 1 then
            Return \<lparr>ok = False, summary = ''Failed to parse action after retries. Last error: '' @ m,
                    file_paths = None, iterations = st_iteration s + 1\<rparr>
          else Continue (s\<lparr>st_last_checks := [''ActionParseError: '' @ m],
                            st_phase_retries := st_phase_retries s + 1,
                            st_iteration := st_iteration s + 1\<rparr>))"
    by (simp add: parse_failure_def)
  then show "\<exists>m. loop_body B cfg E sp s =
         (if max_phase_retries cfg < st_phase_retries s + 1 then
            Return \<lparr>ok = False, summary = ''Failed to parse action after retries. Last error: '' @ m,
                    file_paths = None, iterations = st_iteration s + 1\<rparr>
          else Continue (s\<lparr>st_last_checks := [''ActionParseError: '' @ m],
                            st_phase_retries := st_phase_retries s + 1,
                            st_iteration := st_iteration s + 1\<rparr>))"
    by (rule exI)
next
  show "last_checks (snapshot_of sp (s\<lparr>st_last_checks := [d], st_phase_retries := k, st_iteration := i\<rparr>)) = Some [d]"
    by (simp add: snapshot_of_def)
next
  show "phase (snapshot_of sp (s\<lparr>st_last_checks := [d], st_phase_retries := k, st_iteration := i\<rparr>)) = st_phase s"
    by (simp add: snapshot_of_def)
next
  assume a: "(\<forall>x\<in>set (run_passes B cfg E sp st). parse_fails B E sp x)
        \<and> st_phase_retries st = 0 \<and> 0 \<le> max_phase_retries cfg
        \<and> st_iteration st + max_phase_retries cfg + 1 \<le> max_iterations cfg"
  have "\<exists>r. run_loop B cfg E sp st = Inr r \<and> \<not> ok r
           \<and> iterations r = st_iteration st + (max_phase_retries cfg - st_phase_retries st) + 1
           \<and> length (run_passes B cfg E sp st) = Suc (nat (max_phase_retries cfg - st_phase_retries st))
           \<and> (\<forall>s\<in>set (run_passes B cfg E sp st). st_phase s = st_phase st)"
    by (rule parse_failures_from [OF refl]) (use a in simp_all)
  with a show "\<exists>r. run_loop B cfg E sp st = Inr r \<and> \<not> ok r
         \<and> iterations r = st_iteration st + max_phase_retries cfg + 1
         \<and> length (run_passes B cfg E sp st) = nat (max_phase_retries cfg + 1)
         \<and> (\<forall>x\<in>set (run_passes B cfg E sp st). st_phase x = st_phase st)"
    by (simp add: nat_add_distrib)
qed

theorem parse_failure_retry_discipline_witness:
  "run_passes example_builtins default_config llm_blank [] initial_state =
     [initial_state,
      initial_state\<lparr>st_last_checks := [''ActionParseError: Empty model response; expected an ```action``` block.''],
                    st_phase_retries := 1, st_iteration := 1\<rparr>,
      initial_state\<lparr>st_last_checks := [''ActionParseError: Empty model response; expected an ```action``` block.''],
                    st_phase_retries := 2, st_iteration := 2\<rparr>]
   \<and> parse_fails example_builtins llm_blank [] initial_state
   \<and> parse_fails example_builtins llm_blank []
        (initial_state\<lparr>st_last_checks := [''ActionParseError: Empty model response; expected an ```action``` block.''],
                      st_phase_retries := 1, st_iteration := 1\<rparr>)
   \<and> parse_fails example_builtins llm_blank []
        (initial_state\<lparr>st_last_checks := [''ActionParseError: Empty model response; expected an ```action``` block.''],
                      st_phase_retries := 2, st_iteration := 2\<rparr>)
   \<and> st_phase_retries initial_state = 0 \<and> 0 \<le> max_phase_retries default_config
   \<and> st_iteration initial_state + max_phase_retries default_config + 1 \<le> max_iterations default_config
   \<and> (\<exists>r. run_loop example_builtins default_config llm_blank [] initial_state = Inr r \<and> \<not> ok r
         \<and> iterations r = 3
         \<and> length (run_passes example_builtins default_config llm_blank [] initial_state) = 3)"
proof -
  have passes: "run_passes example_builtins default_config llm_blank [] initial_state =
     [initial_state,
      initial_state\<lparr>st_last_checks := [''ActionParseError: Empty model response; expected an ```action``` block.''],
                    st_phase_retries := 1, st_iteration := 1\<rparr>,
      initial_state\<lparr>st_last_checks := [''ActionParseError: Empty model response; expected an ```action``` block.''],
                    st_phase_retries := 2, st_iteration := 2\<rparr>]"
    by (simp add: run_passes.simps blank_pass parse_failure_def initial_state_def default_config_def)
  have h: "(\<forall>x\<in>set (run_passes example_builtins default_config llm_blank [] initial_state).
       parse_fails example_builtins llm_blank [] x)
   \<and> st_phase_retries initial_state = 0 \<and> 0 \<le> max_phase_retries default_config
   \<and> st_iteration initial_state + max_phase_retries default_config + 1 \<le> max_iterations default_config"
    by (simp add: blank_parse_fails initial_state_def default_config_def)
  from parse_failure_retry_discipline [where B = example_builtins and E = llm_blank and sp = "[]"
      and cfg = default_config and st = initial_state, THEN conjunct2, THEN conjunct2, THEN conjunct2,
      THEN mp, OF h]
  obtain r where r: "run_loop example_builtins default_config llm_blank [] initial_state = Inr r" "\<not> ok r"
    "iterations r = st_iteration initial_state + max_phase_retries default_config + 1"
    "length (run_passes example_builtins default_config llm_blank [] initial_state)
       = nat (max_phase_retries default_config + 1)"
    by blast
  from r(3) have i3: "iterations r = 3" by (simp add: initial_state_def default_config_def)
  from r(4) have l3: "length (run_passes example_builtins default_config llm_blank [] initial_state) = 3"
    by (simp add: default_config_def)
  from r(1,2) i3 l3
  have ex: "\<exists>r. run_loop example_builtins default_config llm_blank [] initial_state = Inr r \<and> \<not> ok r
         \<and> iterations r = 3
         \<and> length (run_passes example_builtins default_config llm_blank [] initial_state) = 3"
    by blast
  have rest: "st_phase_retries initial_state = 0 \<and> 0 \<le> max_phase_retries default_config
   \<and> st_iteration initial_state + max_phase_retries default_config + 1 \<le> max_iterations default_config"
    by (simp add: initial_state_def default_config_def)
  show ?thesis
    by (intro conjI passes blank_parse_fails ex rest [THEN conjunct1]
          rest [THEN conjunct2, THEN conjunct1] rest [THEN conjunct2, THEN conjunct2])
qed

text \<open>
  The claim C4 as stated fails in four ways. The iteration budget can be the smaller one:
  with \<^verbatim>\<open>max_iterations = 2\<close> and \<^verbatim>\<open>max_phase_retries = 2\<close> and a generator whose text never
  parses, the run makes two passes, both parse failures in phase Implement, and then
  returns \<open>Exceeded max_iterations=2.\<close>, after 2 failed attempts and not 3. The retry
  budget can be negative: with \<^verbatim>\<open>max_phase_retries = -1\<close> the first parse failure ends the
  run, after 1 failed attempt and not 0. The diagnostic is not appended: in a state of
  phase Fix that holds two check failures, a parse failure leaves the diagnostic as the only
  entry of \<^verbatim>\<open>last_checks\<close>. And parsing can fail by raising: for a reply whose action block
  holds a thousand opening brackets \<^verbatim>\<open>safe_parse_action\<close> returns no failure, the
  \<^verbatim>\<open>RecursionError\<close> leaves the pass and the run, and nothing is recorded or retried.
\<close>

theorem parse_failure_claim_counterexamples:
  "run_passes example_builtins tight_config llm_blank [] initial_state =
     [initial_state,
      initial_state\<lparr>st_last_checks := [''ActionParseError: Empty model response; expected an ```action``` block.''],
                    st_phase_retries := 1, st_iteration := 1\<rparr>]
   \<and> parse_fails example_builtins llm_blank [] initial_state
   \<and> parse_fails example_builtins llm_blank []
        (initial_state\<lparr>st_last_checks := [''ActionParseError: Empty model response; expected an ```action``` block.''],
                      st_phase_retries := 1, st_iteration := 1\<rparr>)
   \<and> run example_builtins tight_config llm_blank [] =
        Inr \<lparr>ok = False, summary = ''Exceeded max_iterations=2.'', file_paths = None, iterations = 2\<rparr>
   \<and> max_phase_retries tight_config + 1 = 3
   \<and> run_passes example_builtins negative_retries_config llm_blank [] initial_state = [initial_state]
   \<and> run example_builtins negative_retries_config llm_blank [] =
        Inr \<lparr>ok = False,
              summary = ''Failed to parse action after retries. Last error: Empty model response; expected an ```action``` block.'',
              file_paths = None, iterations = 1\<rparr>
   \<and> max_phase_retries negative_retries_config + 1 = 0
   \<and> parse_fails example_builtins llm_blank [] fix_state
   \<and> st_last_checks fix_state = [''unittest failed: boom'', ''Not enough tests: found 1, expected >= 3.'']
   \<and> loop_body example_builtins default_config llm_blank [] fix_state =
        Continue (fix_state\<lparr>st_last_checks := [''ActionParseError: Empty model response; expected an ```action``` block.''],
                            st_phase_retries := 1, st_iteration := 5\<rparr>)
   \<and> \<not> parse_fails nested_builtins llm_nested [] initial_state
   \<and> loop_body nested_builtins default_config llm_nested [] initial_state =
        Raise (Exn ''RecursionError''
              ''maximum recursion depth exceeded while decoding a JSON array from a unicode string'')
   \<and> run nested_builtins default_config llm_nested [] =
        Inl (Exn ''RecursionError''
              ''maximum recursion depth exceeded while decoding a JSON array from a unicode string'')"
proof -
  have tight: "run_passes example_builtins tight_config llm_blank [] initial_state =
     [initial_state,
      initial_state\<lparr>st_last_checks := [''ActionParseError: Empty model response; expected an ```action``` block.''],
                    st_phase_retries := 1, st_iteration := 1\<rparr>]
   \<and> run example_builtins tight_config llm_blank [] =
        Inr \<lparr>ok = False, summary = ''Exceeded max_iterations=2.'', file_paths = None, iterations = 2\<rparr>
   \<and> max_phase_retries tight_config + 1 = 3"
    by (simp add: run_def run_loop.simps run_passes.simps blank_pass parse_failure_def
          initial_state_def tight_config_def str_int_2)
  have negative: "run_passes example_builtins negative_retries_config llm_blank [] initial_state = [initial_state]
   \<and> run example_builtins negative_retries_config llm_blank [] =
        Inr \<lparr>ok = False,
              summary = ''Failed to parse action after retries. Last error: Empty model response; expected an ```action``` block.'',
              file_paths = None, iterations = 1\<rparr>
   \<and> max_phase_retries negative_retries_config + 1 = 0"
    by (simp add: run_def run_loop.simps run_passes.simps blank_pass parse_failure_def
          initial_state_def negative_retries_config_def)
  have replaced: "st_last_checks fix_state = [''unittest failed: boom'', ''Not enough tests: found 1, expected >= 3.'']
   \<and> loop_body example_builtins default_config llm_blank [] fix_state =
        Continue (fix_state\<lparr>st_last_checks := [''ActionParseError: Empty model response; expected an ```action``` block.''],
                            st_phase_retries := 1, st_iteration := 5\<rparr>)"
    by (simp add: blank_pass parse_failure_def fix_state_def default_config_def)
  have raised: "run nested_builtins default_config llm_nested [] =
        Inl (Exn ''RecursionError''
              ''maximum recursion depth exceeded while decoding a JSON array from a unicode string'')"
    unfolding run_def
    by (rule run_loop_Raise [OF _ nested_pass]) (simp add: initial_state_def default_config_def)
  show ?thesis
    by (intro conjI tight [THEN conjunct1] tight [THEN conjunct2, THEN conjunct1]
          tight [THEN conjunct2, THEN conjunct2] negative [THEN conjunct1]
          negative [THEN conjunct2, THEN conjunct1] negative [THEN conjunct2, THEN conjunct2]
          replaced [THEN conjunct1] replaced [THEN conjunct2] blank_parse_fails
          nested_parse_does_not_return nested_pass raised)
qed

section \<open>Runs that never dispatch a terminal tool\<close>






section \<open>The checks section of the prompt\<close>

lemma phase_instruction_head: "\<exists>rest. phase_instruction s = CHR ''T'' # rest"
  by (simp add: phase_instruction_def)

lemma checks_header_only_in_checks_lines:
  "filter (prefix ''\<newline>LAST_CHECKS:\<newline>'') (prompt_lines B s) = checks_lines s"
proof -
  obtain rest where pi: "phase_instruction s = CHR ''T'' # rest"
    using phase_instruction_head by blast
  have cl: "filter (prefix ''\<newline>LAST_CHECKS:\<newline>'') (checks_lines s) = checks_lines s"
    by (simp add: checks_lines_def split: option.splits)
  show ?thesis
    unfolding prompt_lines_def filter_append cl
    by (simp add: AGENT_RULES_def pi)
qed

text \<open>
  C9, as the code has it. The prompt is the lines of \<^verbatim>\<open>build_prompt\<close> joined by newlines,
  and the only lines that start with the header \<open>LAST_CHECKS:\<close> are those of the checks
  section. For a snapshot whose check list \<open>cs\<close> is not empty the section is one line
  group: the header followed by the first ten entries of \<open>cs\<close> in list order (all of them
  when there are fewer), each prefixed with \<open>- \<close>; so at most ten entries. For a snapshot
  whose check list is absent or empty there is no such section.
\<close>

theorem build_prompt_checks_section:
  "build_prompt B s = join ''\<newline>'' (prompt_lines B s)
   \<and> filter (prefix ''\<newline>LAST_CHECKS:\<newline>'') (prompt_lines B s) = checks_lines s
   \<and> (last_checks s = Some cs \<and> cs \<noteq> [] \<longrightarrow>
        checks_lines s = [''\<newline>LAST_CHECKS:\<newline>'' @ join ''\<newline>'' (map (\<lambda>c. ''- '' @ c) (take 10 cs))]
        \<and> length (take 10 cs) = min 10 (length cs))
   \<and> (last_checks s = None \<or> last_checks s = Some [] \<longrightarrow> checks_lines s = [])"
proof (intro conjI impI)
  show "build_prompt B s = join ''\<newline>'' (prompt_lines B s)"
    by (simp only: build_prompt_def)
  show "filter (prefix ''\<newline>LAST_CHECKS:\<newline>'') (prompt_lines B s) = checks_lines s"
    by (rule checks_header_only_in_checks_lines)
  show "checks_lines s = [''\<newline>LAST_CHECKS:\<newline>'' @ join ''\<newline>'' (map (\<lambda>c. ''- '' @ c) (take 10 cs))]"
    if "last_checks s = Some cs \<and> cs \<noteq> []"
    using that by (simp only: checks_lines_def option.case if_False)
  show "length (take 10 cs) = min 10 (length cs)"
    if "last_checks s = Some cs \<and> cs \<noteq> []"
    by simp
  show "checks_lines s = []" if "last_checks s = None \<or> last_checks s = Some []"
    using that by (auto simp: checks_lines_def)
qed

theorem build_prompt_checks_section_witness:
  "last_checks eleven_snapshot = Some eleven_checks \<and> eleven_checks \<noteq> []
   \<and> filter (prefix ''\<newline>LAST_CHECKS:\<newline>'') (prompt_lines example_builtins eleven_snapshot) =
       [''\<newline>LAST_CHECKS:\<newline>- c1\<newline>- c2\<newline>- c3\<newline>- c4\<newline>- c5\<newline>- c6\<newline>- c7\<newline>- c8\<newline>- c9\<newline>- c10'']"
proof -
  have h: "last_checks eleven_snapshot = Some eleven_checks \<and> eleven_checks \<noteq> []"
    by (simp add: eleven_snapshot_def eleven_checks_def)
  note t = build_prompt_checks_section [where B = example_builtins and s = eleven_snapshot and cs = eleven_checks]
  from t [THEN conjunct2, THEN conjunct2, THEN conjunct1, THEN mp, OF h]
  have "checks_lines eleven_snapshot =
      [''\<newline>LAST_CHECKS:\<newline>- c1\<newline>- c2\<newline>- c3\<newline>- c4\<newline>- c5\<newline>- c6\<newline>- c7\<newline>- c8\<newline>- c9\<newline>- c10'']"
    by (simp add: eleven_checks_def)
  with t [THEN conjunct2, THEN conjunct1] h show ?thesis by simp
qed

text \<open>
  The claim C9 as stated fails on a list of more than ten entries: of eleven checks the
  prompt shows \<open>c1\<close> to \<open>c10\<close> and leaves out \<open>c11\<close>, the most recent one, while the ten most
  recent are \<open>c2\<close> to \<open>c11\<close>.
\<close>

theorem prompt_keeps_first_ten_checks:
  "last_checks eleven_snapshot =
     Some [''c1'', ''c2'', ''c3'', ''c4'', ''c5'', ''c6'', ''c7'', ''c8'', ''c9'', ''c10'', ''c11'']
   \<and> checks_lines eleven_snapshot =
       [''\<newline>LAST_CHECKS:\<newline>- c1\<newline>- c2\<newline>- c3\<newline>- c4\<newline>- c5\<newline>- c6\<newline>- c7\<newline>- c8\<newline>- c9\<newline>- c10'']
   \<and> ten_most_recent [''c1'', ''c2'', ''c3'', ''c4'', ''c5'', ''c6'', ''c7'', ''c8'', ''c9'', ''c10'', ''c11'']
       = [''c2'', ''c3'', ''c4'', ''c5'', ''c6'', ''c7'', ''c8'', ''c9'', ''c10'', ''c11'']
   \<and> checks_lines eleven_snapshot \<noteq>
       [''\<newline>LAST_CHECKS:\<newline>'' @ join ''\<newline>'' (map (\<lambda>c. ''- '' @ c)
          (ten_most_recent [''c1'', ''c2'', ''c3'', ''c4'', ''c5'', ''c6'', ''c7'', ''c8'', ''c9'', ''c10'', ''c11'']))]"
  by (simp add: checks_lines_def eleven_snapshot_def eleven_checks_def ten_most_recent_def)

section \<open>\<^verbatim>\<open>run_checks\<close>\<close>

lemma spec_get_function_name_returns:
  "dict_get sp ''function'' (PyDict []) = PyDict f \<Longrightarrow> \<exists>fn. spec_get_function_name B sp = Inr fn"
  by (simp add: spec_get_function_name_def split: pyval.splits)

lemma run_checks_shape:
  "(if spec_readable B sp
    then \<exists>checks. run_checks B procs sp c t s ua = Inr (checks = [], checks)
    else \<exists>e. run_checks B procs sp c t s ua = Inl e)"
proof (cases "dict_get sp ''function'' (PyDict [])")
  case (PyDict f)
  from spec_get_function_name_returns [OF this] obtain fn where fn: "spec_get_function_name B sp = Inr fn"
    by blast
  show ?thesis
  proof (cases "let q = dict_get sp ''quality'' (PyDict []) in if truthy q then q else PyDict []")
    case (PyDict quality)
    note q = this
    show ?thesis
    proof (cases "py_int B (let m = dict_get quality ''min_tests'' (PyInt 3)
                               in if truthy m then m else PyInt 3)")
      case (Inl e)
      with q fn \<open>dict_get sp ''function'' (PyDict []) = PyDict f\<close> show ?thesis
        by (simp add: run_checks_def spec_readable_def)
    next
      case (Inr n)
      with q fn \<open>dict_get sp ''function'' (PyDict []) = PyDict f\<close> show ?thesis
        by (simp add: run_checks_def spec_readable_def Let_def)
    qed
  qed (use fn \<open>dict_get sp ''function'' (PyDict []) = PyDict f\<close> in
        \<open>simp_all add: run_checks_def spec_readable_def\<close>)
qed (simp_all add: run_checks_def spec_readable_def spec_get_function_name_def)

text \<open>
  C10. Whenever \<^verbatim>\<open>run_checks\<close> returns, its \<^verbatim>\<open>ok\<close> is true exactly when the returned
  \<^verbatim>\<open>checks\<close> list is empty, whatever the specification, code, tests, strict flag and the
  outcome of the two child processes. It returns for every readable specification; for
  the others the spec lookups raise before any check is made.
\<close>

theorem run_checks_ok_iff_no_checks:
  "(run_checks B procs sp c t s ua = Inr (passed, checks) \<longrightarrow> (passed \<longleftrightarrow> checks = []))
   \<and> (spec_readable B sp \<longrightarrow> (\<exists>cs. run_checks B procs sp c t s ua = Inr (cs = [], cs)))
   \<and> (\<not> spec_readable B sp \<longrightarrow> (\<exists>e. run_checks B procs sp c t s ua = Inl e))"
proof (intro conjI impI)
  assume r: "run_checks B procs sp c t s ua = Inr (passed, checks)"
  show "passed \<longleftrightarrow> checks = []"
  proof (cases "spec_readable B sp")
    case True
    with run_checks_shape [of B sp procs c t s ua] obtain cs where
      "run_checks B procs sp c t s ua = Inr (cs = [], cs)" by auto
    with r show ?thesis by auto
  next
    case False
    with run_checks_shape [of B sp procs c t s ua] r show ?thesis by auto
  qed
next
  assume "spec_readable B sp"
  with run_checks_shape [of B sp procs c t s ua]
  show "\<exists>cs. run_checks B procs sp c t s ua = Inr (cs = [], cs)" by simp
next
  assume "\<not> spec_readable B sp"
  with run_checks_shape [of B sp procs c t s ua]
  show "\<exists>e. run_checks B procs sp c t s ua = Inl e" by simp
qed

lemma missing_function_run:
  "run_checks example_builtins quiet_processes missing_function_spec missing_function_code
       missing_function_tests True [] =
     Inr (False, [''Function definition not found: def foo(...).'',
                  ''Not enough tests: found 1, expected >= 3.''])"
  by code_simp

lemma missing_function_readable: "spec_readable example_builtins missing_function_spec"
  by code_simp

theorem run_checks_ok_iff_no_checks_witness:
  "spec_readable example_builtins missing_function_spec
   \<and> run_checks example_builtins quiet_processes missing_function_spec missing_function_code
       missing_function_tests True [] =
     Inr (False, [''Function definition not found: def foo(...).'',
                  ''Not enough tests: found 1, expected >= 3.''])
   \<and> (False \<longleftrightarrow> [''Function definition not found: def foo(...).'',
                  ''Not enough tests: found 1, expected >= 3.''] = [])"
  using run_checks_ok_iff_no_checks [where B = example_builtins and procs = quiet_processes
      and sp = missing_function_spec and c = missing_function_code and t = missing_function_tests
      and s = True and ua = "[]" and passed = False
      and checks = "[''Function definition not found: def foo(...).'',
                  ''Not enough tests: found 1, expected >= 3.'']"]
    missing_function_run missing_function_readable
  by blast

end
